theory Spec2Isabelle
  imports Complex_Main
begin

section \<open>Values, errors and strings\<close>

text \<open>
  Python values that reach the PLC's tag interface: yaml strings (\<open>basestring\<close>),
  integers and booleans. Tag values held by the device layer are numbers; the source wraps
  every value it reads in \<open>Decimal(...)\<close>, so they are modelled as rationals.
\<close>

datatype pyval = VStr string | VInt int | VBool bool

type_synonym decimal = rat

text \<open>A tag as the device layer sees it: the pair \<open>(name, 1)\<close>.\<close>

type_synonym tag = "string \<times> nat"

text \<open>
  The exceptions of \<open>generic_plc.py\<close> (\<open>TagDoesNotExist\<close>, \<open>InvalidControlValue\<close>), the
  built-in ones its dictionary and cursor accesses can raise, and \<open>DeviceError\<close> for any
  exception coming out of the device layer's \<open>get\<close>/\<open>receive\<close>.
\<close>

datatype error =
    TagDoesNotExist string
  | InvalidControlValue pyval
  | KeyError string
  | TypeError
  | DeviceError

text \<open>\<open>str.lower()\<close>: the ASCII capitals are mapped to their small letters.\<close>

definition lower_char :: "char \<Rightarrow> char" where
  "lower_char c =
     (case map_of (zip ''ABCDEFGHIJKLMNOPQRSTUVWXYZ'' ''abcdefghijklmnopqrstuvwxyz'') c of
        None \<Rightarrow> c
      | Some d \<Rightarrow> d)"

definition lower :: "string \<Rightarrow> string" where
  "lower s = map lower_char s"

section \<open>Configuration entries and rule objects\<close>

text \<open>
  A control entry and an attack entry of the yaml configuration, with the keys that
  \<open>create_controls\<close> and \<open>create_attacks\<close> read. A key that the branch for the entry's
  type does not read is an unused field.
\<close>

record control_dict =
  control_type :: string
  control_actuator :: string
  control_action :: pyval
  control_dependant :: string
  control_value :: decimal

record attack_dict =
  attack_type :: string
  attack_name :: string
  attack_actuators :: string
  attack_command :: pyval
  attack_start :: int
  attack_end :: int
  attack_sensor :: string
  attack_value :: decimal
  attack_lower_value :: decimal
  attack_upper_value :: decimal

text \<open>
  The rule objects, with the constructor arguments in the order in which
  \<open>create_controls\<close> and \<open>create_attacks\<close> pass them.
\<close>

datatype control =
    AboveControl string pyval string decimal
  | BelowControl string pyval string decimal
  | TimeControl string pyval decimal

datatype attack =
    TimeAttack string string pyval int int
  | TriggerAboveAttack string string pyval string decimal
  | TriggerBelowAttack string string pyval string decimal
  | TriggerBetweenAttack string string pyval string decimal decimal

subsection \<open>create_controls and create_attacks\<close>

text \<open>
  Lines 149-171: one pass over the list; each of the three independent \<open>if\<close>s appends to
  \<open>ret\<close> when the lowercased type matches.
\<close>

definition create_controls_step :: "control list \<Rightarrow> control_dict \<Rightarrow> control list" where
  "create_controls_step ret c =
     (let ret1 = (if lower (control_type c) = ''above''
                  then ret @ [AboveControl (control_actuator c) (control_action c)
                                (control_dependant c) (control_value c)]
                  else ret);
          ret2 = (if lower (control_type c) = ''below''
                  then ret1 @ [BelowControl (control_actuator c) (control_action c)
                                 (control_dependant c) (control_value c)]
                  else ret1);
          ret3 = (if lower (control_type c) = ''time''
                  then ret2 @ [TimeControl (control_actuator c) (control_action c) (control_value c)]
                  else ret2)
      in ret3)"

definition create_controls :: "control_dict list \<Rightarrow> control list" where
  "create_controls controls_list = foldl create_controls_step [] controls_list"

text \<open>Lines 173-196: an \<open>if\<close>/\<open>elif\<close> chain with no final \<open>else\<close>.\<close>

definition create_attacks_step :: "attack list \<Rightarrow> attack_dict \<Rightarrow> attack list" where
  "create_attacks_step attacks a =
     (if lower (attack_type a) = ''time''
      then attacks @ [TimeAttack (attack_name a) (attack_actuators a) (attack_command a)
                        (attack_start a) (attack_end a)]
      else if lower (attack_type a) = ''above''
      then attacks @ [TriggerAboveAttack (attack_name a) (attack_actuators a) (attack_command a)
                        (attack_sensor a) (attack_value a)]
      else if lower (attack_type a) = ''below''
      then attacks @ [TriggerBelowAttack (attack_name a) (attack_actuators a) (attack_command a)
                        (attack_sensor a) (attack_value a)]
      else if lower (attack_type a) = ''between''
      then attacks @ [TriggerBetweenAttack (attack_name a) (attack_actuators a) (attack_command a)
                        (attack_sensor a) (attack_lower_value a) (attack_upper_value a)]
      else attacks)"

definition create_attacks :: "attack_dict list \<Rightarrow> attack list" where
  "create_attacks attack_list = foldl create_attacks_step [] attack_list"

text \<open>
  What the two functions are expected to build: the entries of a recognised type, each
  turned into the rule object of its type, in input order.
\<close>

definition recognised_control :: "control_dict \<Rightarrow> bool" where
  "recognised_control c = (lower (control_type c) \<in> {''above'', ''below'', ''time''})"

definition control_of :: "control_dict \<Rightarrow> control" where
  "control_of c =
     (if lower (control_type c) = ''above''
      then AboveControl (control_actuator c) (control_action c) (control_dependant c) (control_value c)
      else if lower (control_type c) = ''below''
      then BelowControl (control_actuator c) (control_action c) (control_dependant c) (control_value c)
      else TimeControl (control_actuator c) (control_action c) (control_value c))"

definition recognised_attack :: "attack_dict \<Rightarrow> bool" where
  "recognised_attack a = (lower (attack_type a) \<in> {''time'', ''above'', ''below'', ''between''})"

definition attack_of :: "attack_dict \<Rightarrow> attack" where
  "attack_of a =
     (if lower (attack_type a) = ''time''
      then TimeAttack (attack_name a) (attack_actuators a) (attack_command a)
             (attack_start a) (attack_end a)
      else if lower (attack_type a) = ''above''
      then TriggerAboveAttack (attack_name a) (attack_actuators a) (attack_command a)
             (attack_sensor a) (attack_value a)
      else if lower (attack_type a) = ''below''
      then TriggerBelowAttack (attack_name a) (attack_actuators a) (attack_command a)
             (attack_sensor a) (attack_value a)
      else TriggerBetweenAttack (attack_name a) (attack_actuators a) (attack_command a)
             (attack_sensor a) (attack_lower_value a) (attack_upper_value a))"

section \<open>The shared database\<close>

text \<open>
  The sqlite database shared with the physical-process simulator: the rows
  \<open>(name, flag)\<close> of table \<open>sync\<close> and the rows \<open>(id, time)\<close> of table \<open>master_time\<close>.
  A connection sees the committed database, or its own working copy while it has a
  transaction open; \<open>commit\<close> publishes the working copy.
\<close>

record database =
  sync :: "(string \<times> int) list"
  master_time :: "(int \<times> int) list"

record connection =
  committed :: database
  working :: "database option"

definition db_view :: "connection \<Rightarrow> database" where
  "db_view c = (case working c of None \<Rightarrow> committed c | Some d \<Rightarrow> d)"

text \<open>\<open>UPDATE sync SET flag=? WHERE name IS ?\<close>\<close>

definition update_sync :: "int \<Rightarrow> string \<Rightarrow> connection \<Rightarrow> connection" where
  "update_sync f n c =
     c\<lparr>working := Some ((db_view c)\<lparr>sync := map (\<lambda>(n', f'). if n' = n then (n', f) else (n', f'))
                                                (sync (db_view c))\<rparr>)\<rparr>"

definition commit :: "connection \<Rightarrow> connection" where
  "commit c = \<lparr>committed = db_view c, working = None\<rparr>"

text \<open>
  \<open>SELECT ...\<close> followed by \<open>fetchone()[0]\<close>: the first matching row's column, and a
  \<open>TypeError\<close> when no row matches (\<open>fetchone()\<close> is \<open>None\<close> then).
\<close>

definition select_flag :: "string \<Rightarrow> connection \<Rightarrow> error + int" where
  "select_flag n c =
     (case filter (\<lambda>(n', f). n' = n) (sync (db_view c)) of
        [] \<Rightarrow> Inl TypeError
      | (n', f) # rest \<Rightarrow> Inr f)"

definition select_time :: "connection \<Rightarrow> error + int" where
  "select_time c =
     (case filter (\<lambda>(i, t). i = 1) (master_time (db_view c)) of
        [] \<Rightarrow> Inl TypeError
      | (i, t) # rest \<Rightarrow> Inr t)"

section \<open>The generic PLC\<close>

text \<open>
  One entry of \<open>intermediate_yaml["plcs"]\<close>. The keys \<open>sensors\<close> and \<open>actuators\<close> may be
  absent in the yaml (the constructor tests for them), so they are optional here.
\<close>

record plc_data =
  name :: string
  public_ip :: string
  sensors :: "string list option"
  actuators :: "string list option"

text \<open>What the main loop does, in order: the observable events of a run.\<close>

datatype event =
    GetSync bool
  | Sleep nat
  | ApplyControl control
  | ApplyAttack attack
  | SetSync int

text \<open>
  The \<open>GenericPLC\<close> object after construction. \<open>plc_name\<close>, \<open>plc_sensors\<close> and
  \<open>plc_actuators\<close> are the keys \<open>name\<close>, \<open>sensors\<close> and \<open>actuators\<close> of the PLC's own
  entry \<open>intermediate_plc\<close>; the constructor (lines 44-48) gives it both lists, so they are
  plain lists here. \<open>memory\<close> is the device layer's local tag table (what \<open>self.get\<close> and
  \<open>self.set\<close> work on), \<open>network\<close> the tag tables the peers publish (what \<open>self.receive\<close>
  reads, by address), \<open>received\<close> the log of the network receives issued so far, \<open>conn\<close>
  the database connection, \<open>clock\<close> the number of sleeps so far and \<open>trace\<close> the events of
  the main loop so far.
\<close>

record generic_plc =
  yaml_index :: int
  plcs :: "plc_data list"
  plc_name :: string
  plc_sensors :: "string list"
  plc_actuators :: "string list"
  controls :: "control list"
  attacks :: "attack list"
  memory :: "tag \<rightharpoonup> decimal"
  network :: "string \<Rightarrow> tag \<rightharpoonup> decimal"
  received :: "(tag \<times> string) list"
  conn :: connection
  clock :: nat
  trace :: "event list"

subsection \<open>Device primitives\<close>

text \<open>
  The device layer's \<open>get\<close>, \<open>set\<close> and \<open>receive\<close> are external (the protocol stack).
  They are modelled by their contract: \<open>set\<close> stores the value in the local table, \<open>get\<close>
  returns the stored value and raises when there is none, \<open>receive\<close> asks the peer at the
  given address and raises when the peer does not answer.
\<close>

definition device_set :: "tag \<Rightarrow> int \<Rightarrow> generic_plc \<Rightarrow> generic_plc" where
  "device_set t v p = p\<lparr>memory := (memory p)(t \<mapsto> of_int v)\<rparr>"

definition device_get :: "tag \<Rightarrow> generic_plc \<Rightarrow> error + decimal" where
  "device_get t p = (case memory p t of None \<Rightarrow> Inl DeviceError | Some v \<Rightarrow> Inr v)"

definition device_receive :: "tag \<Rightarrow> string \<Rightarrow> generic_plc \<Rightarrow> error + decimal \<times> generic_plc" where
  "device_receive t addr p =
     (case network p addr t of
        None \<Rightarrow> Inl DeviceError
      | Some v \<Rightarrow> Inr (v, p\<lparr>received := received p @ [(t, addr)]\<rparr>))"

subsection \<open>set_tag\<close>

text \<open>
  Lines 249-268. \<open>lowered v\<close> is \<open>isinstance(value, basestring) and value.lower()\<close>:
  it is defined for strings only. The value is checked first; only then is the tag
  looked up in the PLC's own lists.
\<close>

definition lowered :: "pyval \<Rightarrow> string option" where
  "lowered v = (case v of VStr s \<Rightarrow> Some (lower s) | _ \<Rightarrow> None)"

definition set_tag :: "string \<Rightarrow> pyval \<Rightarrow> generic_plc \<Rightarrow> error + generic_plc" where
  "set_tag t v p =
     (case (if lowered v = Some ''closed'' then Inr 0
            else if lowered v = Some ''open'' then Inr 1
            else Inl (InvalidControlValue v)) of
        Inl e \<Rightarrow> Inl e
      | Inr (b :: int) \<Rightarrow>
          if t \<in> set (plc_sensors p) \<or> t \<in> set (plc_actuators p)
          then Inr (device_set (t, 1) b p)
          else Inl (TagDoesNotExist (t @ '' cannot be set from '' @ plc_name p)))"

text \<open>The stored value that an action or command stands for, when it is a valid one.\<close>

definition action_state :: "pyval \<Rightarrow> decimal option" where
  "action_state v =
     (if lowered v = Some ''closed'' then Some 0
      else if lowered v = Some ''open'' then Some 1
      else None)"

subsection \<open>get_tag\<close>

text \<open>
  Lines 228-247. A tag of the PLC's own lists is read from the device layer. Otherwise
  the entries of \<open>plcs\<close> are scanned in order, the PLC's own index is skipped, and the
  first entry that lists the tag is asked over the network. Reading the key \<open>sensors\<close>
  or \<open>actuators\<close> of an entry that lacks it raises \<open>KeyError\<close>; \<open>or\<close> reads the second
  list only when the first does not hold the tag.
\<close>

fun scan_plcs :: "string \<Rightarrow> (nat \<times> plc_data) list \<Rightarrow> generic_plc \<Rightarrow> error + decimal \<times> generic_plc" where
  "scan_plcs t [] p = Inl (TagDoesNotExist t)"
| "scan_plcs t ((i, d) # rest) p =
     (if int i = yaml_index p then scan_plcs t rest p
      else (case sensors d of
              None \<Rightarrow> Inl (KeyError ''sensors'')
            | Some ss \<Rightarrow>
                if t \<in> set ss then device_receive (t, 1) (public_ip d) p
                else (case actuators d of
                        None \<Rightarrow> Inl (KeyError ''actuators'')
                      | Some as \<Rightarrow>
                          if t \<in> set as then device_receive (t, 1) (public_ip d) p
                          else scan_plcs t rest p)))"

definition get_tag :: "string \<Rightarrow> generic_plc \<Rightarrow> error + decimal \<times> generic_plc" where
  "get_tag t p =
     (if t \<in> set (plc_sensors p) \<or> t \<in> set (plc_actuators p)
      then (case device_get (t, 1) p of Inl e \<Rightarrow> Inl e | Inr v \<Rightarrow> Inr (v, p))
      else scan_plcs t (enumerate 0 (plcs p)) p)"

text \<open>An entry declares a tag when one of its lists holds it.\<close>

definition declares :: "string \<Rightarrow> plc_data \<Rightarrow> bool" where
  "declares t d =
     (t \<in> set (case sensors d of None \<Rightarrow> [] | Some ss \<Rightarrow> ss) \<or>
      t \<in> set (case actuators d of None \<Rightarrow> [] | Some as \<Rightarrow> as))"

definition has_lists :: "plc_data \<Rightarrow> bool" where
  "has_lists d = (sensors d \<noteq> None \<and> actuators d \<noteq> None)"

subsection \<open>The synchronisation flag and the master clock\<close>

text \<open>Lines 270-279.\<close>

definition get_master_clock :: "generic_plc \<Rightarrow> error + int" where
  "get_master_clock p = select_time (conn p)"

text \<open>Lines 281-289: \<open>bool(...)\<close> of the flag column.\<close>

definition get_sync :: "generic_plc \<Rightarrow> error + bool" where
  "get_sync p = (case select_flag (plc_name p) (conn p) of Inl e \<Rightarrow> Inl e | Inr f \<Rightarrow> Inr (f \<noteq> 0))"

text \<open>
  Lines 291-300. The argument is \<open>True\<close>/\<open>False\<close> or a number; \<open>int(flag)\<close> is stored.
\<close>

datatype flag = FlagBool bool | FlagInt int

definition int_of_flag :: "flag \<Rightarrow> int" where
  "int_of_flag f = (case f of FlagBool b \<Rightarrow> (if b then 1 else 0) | FlagInt n \<Rightarrow> n)"

definition set_sync :: "flag \<Rightarrow> generic_plc \<Rightarrow> generic_plc" where
  "set_sync f p = p\<lparr>conn := commit (update_sync (int_of_flag f) (plc_name p) (conn p))\<rparr>"

subsection \<open>Applying a rule\<close>

text \<open>
  Modelled from the spec: the classes of \<open>entities.control\<close> and \<open>entities.attack\<close> are not
  among the sources; only their constructor calls are. By sections 3 and 4.3 of the
  specification a rule computes whether its condition holds right now, reading tags with
  \<open>get_tag\<close> and the iteration counter with \<open>get_master_clock\<close>, and when it holds writes its
  action to its actuator with \<open>set_tag\<close>; a failure of either call propagates. A control
  holds when its dependant is above or below its threshold, or when the counter is at its
  time; a time attack holds when the counter is within \<open>start\<close> and \<open>end\<close> (inclusive), a
  trigger attack when its sensor is above or below its threshold, or within
  \<open>lower_value\<close> and \<open>upper_value\<close> (inclusive).
\<close>

fun control_actuator_of :: "control \<Rightarrow> string" where
  "control_actuator_of (AboveControl a act dep v) = a"
| "control_actuator_of (BelowControl a act dep v) = a"
| "control_actuator_of (TimeControl a act v) = a"

fun control_action_of :: "control \<Rightarrow> pyval" where
  "control_action_of (AboveControl a act dep v) = act"
| "control_action_of (BelowControl a act dep v) = act"
| "control_action_of (TimeControl a act v) = act"

fun control_holds :: "control \<Rightarrow> generic_plc \<Rightarrow> error + bool \<times> generic_plc" where
  "control_holds (AboveControl a act dep v) p =
     (case get_tag dep p of Inl e \<Rightarrow> Inl e | Inr (x, p') \<Rightarrow> Inr (x > v, p'))"
| "control_holds (BelowControl a act dep v) p =
     (case get_tag dep p of Inl e \<Rightarrow> Inl e | Inr (x, p') \<Rightarrow> Inr (x < v, p'))"
| "control_holds (TimeControl a act v) p =
     (case get_master_clock p of Inl e \<Rightarrow> Inl e | Inr t \<Rightarrow> Inr (of_int t = v, p))"

definition control_apply :: "control \<Rightarrow> generic_plc \<Rightarrow> error + generic_plc" where
  "control_apply c p =
     (case control_holds c p of
        Inl e \<Rightarrow> Inl e
      | Inr (b, p') \<Rightarrow> if b then set_tag (control_actuator_of c) (control_action_of c) p' else Inr p')"

fun attack_actuator_of :: "attack \<Rightarrow> string" where
  "attack_actuator_of (TimeAttack n a cmd s e) = a"
| "attack_actuator_of (TriggerAboveAttack n a cmd sen v) = a"
| "attack_actuator_of (TriggerBelowAttack n a cmd sen v) = a"
| "attack_actuator_of (TriggerBetweenAttack n a cmd sen lo hi) = a"

fun attack_command_of :: "attack \<Rightarrow> pyval" where
  "attack_command_of (TimeAttack n a cmd s e) = cmd"
| "attack_command_of (TriggerAboveAttack n a cmd sen v) = cmd"
| "attack_command_of (TriggerBelowAttack n a cmd sen v) = cmd"
| "attack_command_of (TriggerBetweenAttack n a cmd sen lo hi) = cmd"

fun attack_holds :: "attack \<Rightarrow> generic_plc \<Rightarrow> error + bool \<times> generic_plc" where
  "attack_holds (TimeAttack n a cmd s e) p =
     (case get_master_clock p of Inl err \<Rightarrow> Inl err | Inr t \<Rightarrow> Inr (s \<le> t \<and> t \<le> e, p))"
| "attack_holds (TriggerAboveAttack n a cmd sen v) p =
     (case get_tag sen p of Inl err \<Rightarrow> Inl err | Inr (x, p') \<Rightarrow> Inr (x > v, p'))"
| "attack_holds (TriggerBelowAttack n a cmd sen v) p =
     (case get_tag sen p of Inl err \<Rightarrow> Inl err | Inr (x, p') \<Rightarrow> Inr (x < v, p'))"
| "attack_holds (TriggerBetweenAttack n a cmd sen lo hi) p =
     (case get_tag sen p of Inl err \<Rightarrow> Inl err | Inr (x, p') \<Rightarrow> Inr (lo \<le> x \<and> x \<le> hi, p'))"

definition attack_apply :: "attack \<Rightarrow> generic_plc \<Rightarrow> error + generic_plc" where
  "attack_apply a p =
     (case attack_holds a p of
        Inl e \<Rightarrow> Inl e
      | Inr (b, p') \<Rightarrow> if b then set_tag (attack_actuator_of a) (attack_command_of a) p' else Inr p')"

subsection \<open>main_loop\<close>

text \<open>
  The database is shared with the physical-process simulator, which runs on its own. It
  is a parameter of the loop: \<open>sim k d\<close> is what the committed database \<open>d\<close> has become
  after the \<open>k\<close>-th sleep of this PLC. \<open>time.sleep(0.01)\<close> lets ten milliseconds pass.
\<close>

type_synonym simulator = "nat \<Rightarrow> database \<Rightarrow> database"

definition log_event :: "event \<Rightarrow> generic_plc \<Rightarrow> generic_plc" where
  "log_event e p = p\<lparr>trace := trace p @ [e]\<rparr>"

definition time_sleep :: "simulator \<Rightarrow> generic_plc \<Rightarrow> generic_plc" where
  "time_sleep sim p =
     log_event (Sleep 10)
       (p\<lparr>clock := Suc (clock p),
          conn := (conn p)\<lparr>committed := sim (clock p) (committed (conn p))\<rparr>\<rparr>)"

text \<open>
  How a piece of the loop ends: it returns, an exception leaves it, or it is still
  running when the observation stops (the bound on the number of polls or iterations is
  used up). Each carries the PLC's state at that point.
\<close>

datatype outcome = Returned generic_plc | Raised error generic_plc | Running generic_plc

fun state_of :: "outcome \<Rightarrow> generic_plc" where
  "state_of (Returned p) = p"
| "state_of (Raised e p) = p"
| "state_of (Running p) = p"

text \<open>Lines 311-312: \<open>while self.get_sync(): time.sleep(0.01)\<close>.\<close>

fun wait_for_release :: "simulator \<Rightarrow> nat \<Rightarrow> generic_plc \<Rightarrow> outcome" where
  "wait_for_release sim 0 p = Running p"
| "wait_for_release sim (Suc fuel) p =
     (case get_sync p of
        Inl e \<Rightarrow> Raised e p
      | Inr b \<Rightarrow>
          if b then wait_for_release sim fuel (time_sleep sim (log_event (GetSync True) p))
          else Returned (log_event (GetSync False) p))"

text \<open>Lines 314-315 and 317-318: the two \<open>for\<close> loops.\<close>

fun apply_controls :: "control list \<Rightarrow> generic_plc \<Rightarrow> outcome" where
  "apply_controls [] p = Returned p"
| "apply_controls (c # cs) p =
     (case control_apply c (log_event (ApplyControl c) p) of
        Inl e \<Rightarrow> Raised e (log_event (ApplyControl c) p)
      | Inr p' \<Rightarrow> apply_controls cs p')"

fun apply_attacks :: "attack list \<Rightarrow> generic_plc \<Rightarrow> outcome" where
  "apply_attacks [] p = Returned p"
| "apply_attacks (a # as) p =
     (case attack_apply a (log_event (ApplyAttack a) p) of
        Inl e \<Rightarrow> Raised e (log_event (ApplyAttack a) p)
      | Inr p' \<Rightarrow> apply_attacks as p')"

text \<open>Lines 311-320: one iteration of the outer loop.\<close>

definition main_loop_body :: "simulator \<Rightarrow> nat \<Rightarrow> generic_plc \<Rightarrow> outcome" where
  "main_loop_body sim fuel p =
     (case wait_for_release sim fuel p of
        Returned p1 \<Rightarrow>
          (case apply_controls (controls p1) p1 of
             Returned p2 \<Rightarrow>
               (case apply_attacks (attacks p2) p2 of
                  Returned p3 \<Rightarrow> Returned (log_event (SetSync 1) (set_sync (FlagInt 1) p3))
                | Raised e q \<Rightarrow> Raised e q
                | Running q \<Rightarrow> Running q)
           | Raised e q \<Rightarrow> Raised e q
           | Running q \<Rightarrow> Running q)
      | Raised e q \<Rightarrow> Raised e q
      | Running q \<Rightarrow> Running q)"

text \<open>
  Lines 310-323: \<open>while True\<close>, left only by \<open>test_break\<close> or by an exception. \<open>n\<close> bounds
  the iterations that are observed, \<open>fuel\<close> the polls of each wait.
\<close>

fun main_loop :: "simulator \<Rightarrow> nat \<Rightarrow> nat \<Rightarrow> bool \<Rightarrow> generic_plc \<Rightarrow> outcome" where
  "main_loop sim fuel 0 test_break p = Running p"
| "main_loop sim fuel (Suc n) test_break p =
     (case main_loop_body sim fuel p of
        Returned p1 \<Rightarrow> if test_break then Returned p1 else main_loop sim fuel n test_break p1
      | Raised e q \<Rightarrow> Raised e q
      | Running q \<Rightarrow> Running q)"

text \<open>
  The barrier as a property of a trace: \<open>released r es\<close> holds when every rule is applied
  at a moment where the last thing the PLC learnt or wrote about its own flag is that it
  is 0. \<open>r\<close> says whether that is so before \<open>es\<close>.
\<close>

fun released :: "bool \<Rightarrow> event list \<Rightarrow> bool" where
  "released r [] = True"
| "released r (GetSync b # es) = released (\<not> b) es"
| "released r (Sleep d # es) = released r es"
| "released r (ApplyControl c # es) = (r \<and> released r es)"
| "released r (ApplyAttack a # es) = (r \<and> released r es)"
| "released r (SetSync f # es) = released (f = 0) es"

fun released_after :: "bool \<Rightarrow> event list \<Rightarrow> bool" where
  "released_after r [] = r"
| "released_after r (GetSync b # es) = released_after (\<not> b) es"
| "released_after r (SetSync f # es) = released_after (f = 0) es"
| "released_after r (e # es) = released_after r es"

section \<open>PLC2 of the enhanced C-Town topology\<close>

text \<open>
  \<open>plc2.py\<close>. The PLC reads the tank level \<open>T1\<close> in its main loop, keeps a table of the
  levels it has read, and writes the table to a file when it is told to stop. A second
  thread sends the latest level to whoever asks.
\<close>

subsection \<open>The table and its CSV text\<close>

text \<open>
  \<open>datetime.now()\<close> is a point in time; what matters of it here is only that it is
  stored and later written.
\<close>

type_synonym datetime = nat

datatype cell = CStr string | CInt int | CTime datetime | CDec decimal

text \<open>\<open>str\<close> of a Python integer: its decimal digits, after a minus sign when negative.\<close>

fun str_nat :: "nat \<Rightarrow> string" where
  "str_nat n = (if n < 10 then [''0123456789'' ! n] else str_nat (n div 10) @ [''0123456789'' ! (n mod 10)])"

declare str_nat.simps [simp del]

definition str_int :: "int \<Rightarrow> string" where
  "str_int i = (if i < 0 then CHR ''-'' # str_nat (nat (- i)) else str_nat (nat i))"

text \<open>
  \<open>csv.writer\<close> turns a value that is not a string into text with \<open>str\<close>. \<open>str\<close> of a
  \<open>datetime\<close> and of a \<open>Decimal\<close> belong to the Python library; they are parameters.
\<close>

record renderers =
  str_datetime :: "datetime \<Rightarrow> string"
  str_decimal :: "decimal \<Rightarrow> string"

definition str_cell :: "renderers \<Rightarrow> cell \<Rightarrow> string" where
  "str_cell rn c =
     (case c of CStr s \<Rightarrow> s | CInt i \<Rightarrow> str_int i | CTime t \<Rightarrow> str_datetime rn t
      | CDec d \<Rightarrow> str_decimal rn d)"

text \<open>
  \<open>csv.writer(f)\<close> with the default dialect: fields separated by a comma, a row ended by
  carriage return and line feed, and a field put between double quotes, its own double
  quotes doubled, only when it holds a comma, a double quote, a carriage return or a line
  feed. A row that is one empty field is written as two double quotes.
\<close>

definition csv_special :: "char \<Rightarrow> bool" where
  "csv_special c = (c = CHR '','' \<or> c = CHR 0x22 \<or> c = CHR 0x0D \<or> c = CHR 0x0A)"

definition csv_field :: "string \<Rightarrow> string" where
  "csv_field f =
     (if list_ex csv_special f
      then CHR 0x22 # concat (map (\<lambda>c. if c = CHR 0x22 then [c, c] else [c]) f) @ [CHR 0x22]
      else f)"

fun join_fields :: "string list \<Rightarrow> string" where
  "join_fields [] = []"
| "join_fields [f] = f"
| "join_fields (f # g # fs) = f @ CHR '','' # join_fields (g # fs)"

definition csv_row :: "renderers \<Rightarrow> cell list \<Rightarrow> string" where
  "csv_row rn cells =
     (if map (str_cell rn) cells = [[]] then [CHR 0x22, CHR 0x22]
      else join_fields (map (csv_field \<circ> str_cell rn) cells)) @ [CHR 0x0D, CHR 0x0A]"

definition writerows :: "renderers \<Rightarrow> cell list list \<Rightarrow> string" where
  "writerows rn rows = concat (map (csv_row rn) rows)"

subsection \<open>The process\<close>

datatype signal = SIGINT | SIGTERM | SIGHUP

datatype handler = DefaultHandler | SigintHandler

text \<open>
  A process is alive, has left with an exit status, was ended by a signal it does not
  handle, or has died of an exception nobody caught.
\<close>

datatype process = Alive | Exited int | Killed signal | Crashed

text \<open>
  The \<open>PLC2\<close> object and the part of its environment it acts on: what it has printed, the
  files it has written, the handlers of its signals and whether the process is alive. The
  attributes \<open>local_time\<close>, \<open>reader\<close>, \<open>saved_tank_levels\<close> and \<open>t1\<close> exist only from
  \<open>pre_loop\<close> on, which sets them all; \<open>sender_started\<close> says that the thread of
  \<open>send_system_state\<close> has been started.
\<close>

record plc2 =
  local_time :: int
  reader :: bool
  saved_tank_levels :: "cell list list"
  t1 :: decimal
  sender_started :: bool
  handlers :: "signal \<Rightarrow> handler"
  stdout :: "string list"
  files :: "string \<rightharpoonup> string"
  status :: process

text \<open>What \<open>Decimal(self.get(T1))\<close> does: it gives a level or raises.\<close>

datatype reading = ReadFails | ReadOk decimal

text \<open>
  Lines 34-38. \<open>open(..., 'w')\<close> creates the file or empties it; the file holds what the
  writer wrote when the \<open>with\<close> block is left.
\<close>

definition write_output :: "renderers \<Rightarrow> plc2 \<Rightarrow> plc2" where
  "write_output rn s =
     s\<lparr>stdout := stdout s @ [''DEBUG plc2 shutdown''],
       files := (files s)(''output/plc2_saved_tank_levels_received.csv'' \<mapsto>
                            writerows rn (saved_tank_levels s))\<rparr>"

text \<open>Lines 30-32. \<open>sys.exit(0)\<close> ends the process with status 0.\<close>

definition sigint_handler :: "renderers \<Rightarrow> signal \<Rightarrow> plc2 \<Rightarrow> plc2" where
  "sigint_handler rn sig s = (write_output rn s)\<lparr>status := Exited 0\<rparr>"

text \<open>
  A signal reaches the process: the handler installed for it runs; a signal with no
  handler of the program's ends the process.
\<close>

definition deliver :: "renderers \<Rightarrow> signal \<Rightarrow> plc2 \<Rightarrow> plc2" where
  "deliver rn sig s =
     (if status s = Alive
      then (case handlers s sig of
              SigintHandler \<Rightarrow> sigint_handler rn sig s
            | DefaultHandler \<Rightarrow> s\<lparr>status := Killed sig\<rparr>)
      else s)"

text \<open>
  Lines 40-55. The argument is what the first read of \<open>T1\<close> does; when it raises, nothing
  catches the exception.
\<close>

definition plc2_pre_loop :: "reading \<Rightarrow> plc2 \<Rightarrow> plc2" where
  "plc2_pre_loop rd s =
     (let s1 = s\<lparr>stdout := stdout s @ [''DEBUG: plc2 enters pre_loop''],
                 local_time := 0,
                 reader := True,
                 saved_tank_levels := [[CStr ''iteration'', CStr ''timestamp'', CStr ''T1'']],
                 handlers := (handlers s)(SIGINT := SigintHandler, SIGTERM := SigintHandler)\<rparr>
      in (case rd of
            ReadFails \<Rightarrow> s1\<lparr>status := Crashed\<rparr>
          | ReadOk v \<Rightarrow> s1\<lparr>t1 := v, sender_started := True\<rparr>))"

text \<open>
  Lines 57-73. The loop runs for ever; it is followed over the reads it is given, each
  with what \<open>datetime.now()\<close> is in that iteration, and is still running when they are
  used up. The first component of the result is \<open>get_error_counter\<close>. \<open>exit(0)\<close> ends the
  process with status 0, and the reads that remain are never made.
\<close>

fun plc2_loop :: "(reading \<times> datetime) list \<Rightarrow> int \<Rightarrow> plc2 \<Rightarrow> int \<times> plc2" where
  "plc2_loop [] c s = (c, s)"
| "plc2_loop ((rd, now) # rest) c s =
     (case rd of
        ReadFails \<Rightarrow>
          if c + 1 < 100 then plc2_loop rest (c + 1) s
          else (c + 1, s\<lparr>stdout := stdout s @ [''PLC process encountered errors, aborting process''],
                          status := Exited 0\<rparr>)
      | ReadOk v \<Rightarrow>
          plc2_loop rest 0
            (s\<lparr>t1 := v,
               local_time := local_time s + 1,
               saved_tank_levels :=
                 saved_tank_levels s @ [[CInt (local_time s + 1), CTime now, CDec v]]\<rparr>))"

definition plc2_main_loop :: "(reading \<times> datetime) list \<Rightarrow> plc2 \<Rightarrow> int \<times> plc2" where
  "plc2_main_loop rs s = plc2_loop rs 0 s"

text \<open>The levels read with success, each with its time, in order.\<close>

fun levels_read :: "(reading \<times> datetime) list \<Rightarrow> (decimal \<times> datetime) list" where
  "levels_read [] = []"
| "levels_read ((ReadFails, now) # rest) = levels_read rest"
| "levels_read ((ReadOk v, now) # rest) = (v, now) # levels_read rest"

text \<open>The rows of the table for such levels, numbered from \<open>k + 1\<close>.\<close>

fun level_rows :: "int \<Rightarrow> (decimal \<times> datetime) list \<Rightarrow> cell list list" where
  "level_rows k [] = []"
| "level_rows k ((v, now) # rest) = [CInt (k + 1), CTime now, CDec v] # level_rows (k + 1) rest"

subsection \<open>The two threads\<close>

text \<open>
  The main thread runs \<open>main_loop\<close>, the other \<open>send_system_state\<close> (lines 20-28). Each is
  followed statement by statement, and a schedule says which thread makes the next step.
  \<open>holder\<close> is the thread that holds \<open>self.lock\<close>. The main thread is at the entry of
  \<open>with self.lock\<close>, at the assignment of line 63, at the exit of the \<open>with\<close> block or at lines
  71-73; the sender is at the test of \<open>while self.reader\<close> or at the \<open>send\<close> of line 28.
  \<open>sent\<close> are the values it has sent.
\<close>

datatype thread = MainThread | SenderThread

datatype main_pc = AtAcquire | AtAssign | AtRelease | AtAppend

datatype sender_pc = AtTest | AtSend | Finished

record system =
  plc :: plc2
  holder :: "thread option"
  main_at :: main_pc
  sender_at :: sender_pc
  get_error_counter :: int
  sent :: "decimal list"

definition main_step :: "reading \<times> datetime \<Rightarrow> system \<Rightarrow> system" where
  "main_step inp \<sigma> =
     (case main_at \<sigma> of
        AtAcquire \<Rightarrow>
          if holder \<sigma> = None then \<sigma>\<lparr>holder := Some MainThread, main_at := AtAssign\<rparr> else \<sigma>
      | AtAssign \<Rightarrow>
          (case fst inp of
             ReadOk v \<Rightarrow> \<sigma>\<lparr>plc := (plc \<sigma>)\<lparr>t1 := v\<rparr>, main_at := AtRelease\<rparr>
           | ReadFails \<Rightarrow>
               if get_error_counter \<sigma> + 1 < 100
               then \<sigma>\<lparr>holder := None, get_error_counter := get_error_counter \<sigma> + 1,
                      main_at := AtAcquire\<rparr>
               else \<sigma>\<lparr>holder := None, get_error_counter := get_error_counter \<sigma> + 1,
                      plc := (plc \<sigma>)\<lparr>stdout := stdout (plc \<sigma>) @
                                                  [''PLC process encountered errors, aborting process''],
                                      status := Exited 0\<rparr>\<rparr>)
      | AtRelease \<Rightarrow> \<sigma>\<lparr>holder := None, main_at := AtAppend\<rparr>
      | AtAppend \<Rightarrow>
          \<sigma>\<lparr>plc := (plc \<sigma>)\<lparr>local_time := local_time (plc \<sigma>) + 1,
                             saved_tank_levels :=
                               saved_tank_levels (plc \<sigma>) @
                               [[CInt (local_time (plc \<sigma>) + 1), CTime (snd inp), CDec (t1 (plc \<sigma>))]]\<rparr>,
            get_error_counter := 0,
            main_at := AtAcquire\<rparr>)"

text \<open>Lines 27-28: the sender tests \<open>self.reader\<close>, then reads \<open>self.t1\<close> and sends it.\<close>

definition send_system_state_step :: "system \<Rightarrow> system" where
  "send_system_state_step \<sigma> =
     (case sender_at \<sigma> of
        AtTest \<Rightarrow> if reader (plc \<sigma>) then \<sigma>\<lparr>sender_at := AtSend\<rparr> else \<sigma>\<lparr>sender_at := Finished\<rparr>
      | AtSend \<Rightarrow> \<sigma>\<lparr>sent := sent \<sigma> @ [t1 (plc \<sigma>)], sender_at := AtTest\<rparr>
      | Finished \<Rightarrow> \<sigma>)"

definition thread_step :: "thread \<times> reading \<times> datetime \<Rightarrow> system \<Rightarrow> system" where
  "thread_step x \<sigma> =
     (if status (plc \<sigma>) \<noteq> Alive then \<sigma>
      else (case fst x of
              MainThread \<Rightarrow> main_step (snd x) \<sigma>
            | SenderThread \<Rightarrow> if sender_started (plc \<sigma>) then send_system_state_step \<sigma> else \<sigma>))"

definition run_threads :: "(thread \<times> reading \<times> datetime) list \<Rightarrow> system \<Rightarrow> system" where
  "run_threads sched \<sigma> = foldl (\<lambda>\<sigma> x. thread_step x \<sigma>) \<sigma> sched"

text \<open>The threads when \<open>main_loop\<close> is entered: the lock is free and nothing has been sent.\<close>

definition start_threads :: "plc2 \<Rightarrow> system" where
  "start_threads s =
     \<lparr>plc = s, holder = None, main_at = AtAcquire, sender_at = AtTest, get_error_counter = 0,
      sent = []\<rparr>"

section \<open>Example configurations\<close>

text \<open>
  A topology of three PLCs seen from the first one, which owns the level sensor \<open>T1\<close> and
  the pump \<open>PMP1\<close>; the other two publish \<open>T2\<close> and \<open>T3\<close>.
\<close>

definition ex_plc :: generic_plc where
  "ex_plc =
     \<lparr>yaml_index = 0,
      plcs = [\<lparr>name = ''PLC1'', public_ip = ''10.0.0.1'', sensors = Some [''T1''], actuators = Some [''PMP1'']\<rparr>,
              \<lparr>name = ''PLC2'', public_ip = ''10.0.0.2'', sensors = Some [''T2''], actuators = Some [''V2'']\<rparr>,
              \<lparr>name = ''PLC3'', public_ip = ''10.0.0.3'', sensors = Some [''T2'', ''T3''], actuators = Some []\<rparr>],
      plc_name = ''PLC1'',
      plc_sensors = [''T1''],
      plc_actuators = [''PMP1''],
      controls = [BelowControl ''PMP1'' (VStr ''OPEN'') ''T2'' 10],
      attacks = [TimeAttack ''attack1'' ''PMP1'' (VStr ''closed'') 5 10],
      memory = [(''T1'', 1) \<mapsto> 25 / 2, (''PMP1'', 1) \<mapsto> 0],
      network = (\<lambda>addr. if addr = ''10.0.0.2'' then [(''T2'', 1) \<mapsto> 8]
                         else if addr = ''10.0.0.3'' then [(''T2'', 1) \<mapsto> 99, (''T3'', 1) \<mapsto> 3]
                         else Map.empty),
      received = [],
      conn = \<lparr>committed = \<lparr>sync = [(''PLC1'', 1), (''PLC2'', 0), (''PLC3'', 1)], master_time = [(1, 7)]\<rparr>,
              working = None\<rparr>,
      clock = 0,
      trace = []\<rparr>"

text \<open>
  A simulator that leaves the database alone during the PLC's first sleep and, during the
  second, clears every flag and advances the master clock.
\<close>

definition ex_sim :: simulator where
  "ex_sim k d =
     (if k = 1
      then d\<lparr>sync := map (\<lambda>(n, f). (n, 0)) (sync d),
             master_time := map (\<lambda>(i, t). (i, t + 1)) (master_time d)\<rparr>
      else d)"

text \<open>The same PLC once the simulator has cleared the flags: it may run an iteration.\<close>

definition ex_plc_released :: generic_plc where
  "ex_plc_released =
     ex_plc\<lparr>conn := \<lparr>committed = \<lparr>sync = [(''PLC1'', 0), (''PLC2'', 0), (''PLC3'', 0)],
                                         master_time = [(1, 8)]\<rparr>,
                           working = None\<rparr>\<rparr>"

text \<open>
  The same PLC on a topology whose second entry has no key \<open>sensors\<close> (a PLC with
  actuators only, written without the empty list).
\<close>

definition ex_plc_sparse :: generic_plc where
  "ex_plc_sparse =
     ex_plc\<lparr>plcs := [\<lparr>name = ''PLC1'', public_ip = ''10.0.0.1'', sensors = Some [''T1''], actuators = Some [''PMP1'']\<rparr>,
                      \<lparr>name = ''PLC2'', public_ip = ''10.0.0.2'', sensors = None, actuators = Some [''V2'']\<rparr>,
                      \<lparr>name = ''PLC3'', public_ip = ''10.0.0.3'', sensors = Some [''T2'', ''T3''], actuators = Some []\<rparr>]\<rparr>"






text \<open>
  Control and attack entries as the configuration gives them, with types in mixed case
  and one entry of an unknown type in each list.
\<close>

definition ex_controls :: "control_dict list" where
  "ex_controls =
     [\<lparr>control_type = ''Above'', control_actuator = ''PMP1'', control_action = VStr ''closed'',
       control_dependant = ''T1'', control_value = 20\<rparr>,
      \<lparr>control_type = ''between'', control_actuator = ''PMP1'', control_action = VStr ''open'',
       control_dependant = ''T1'', control_value = 15\<rparr>,
      \<lparr>control_type = ''TIME'', control_actuator = ''V2'', control_action = VStr ''open'',
       control_dependant = [], control_value = 3\<rparr>,
      \<lparr>control_type = ''below'', control_actuator = ''PMP1'', control_action = VStr ''open'',
       control_dependant = ''T1'', control_value = 10\<rparr>]"

definition ex_attacks :: "attack_dict list" where
  "ex_attacks =
     [\<lparr>attack_type = ''Between'', attack_name = ''a1'', attack_actuators = ''PMP1'',
       attack_command = VStr ''closed'', attack_start = 0, attack_end = 0, attack_sensor = ''T1'',
       attack_value = 0, attack_lower_value = 5, attack_upper_value = 15\<rparr>,
      \<lparr>attack_type = ''replay'', attack_name = ''a2'', attack_actuators = ''PMP1'',
       attack_command = VStr ''open'', attack_start = 1, attack_end = 2, attack_sensor = ''T1'',
       attack_value = 0, attack_lower_value = 0, attack_upper_value = 0\<rparr>,
      \<lparr>attack_type = ''time'', attack_name = ''a3'', attack_actuators = ''V2'',
       attack_command = VStr ''open'', attack_start = 5, attack_end = 10, attack_sensor = [],
       attack_value = 0, attack_lower_value = 0, attack_upper_value = 0\<rparr>]"

text \<open>
  A fresh \<open>PLC2\<close> process, and stand-ins for the library's \<open>str\<close> of a point in time and of
  a level (whole levels only).
\<close>

definition ex_plc2 :: plc2 where
  "ex_plc2 =
     \<lparr>local_time = 0, reader = False, saved_tank_levels = [], t1 = 0, sender_started = False,
      handlers = (\<lambda>sig. DefaultHandler), stdout = [], files = Map.empty, status = Alive\<rparr>"

definition ex_renderers :: renderers where
  "ex_renderers =
     \<lparr>str_datetime = (\<lambda>t. ''12:00:0'' @ str_int (int t)),
      str_decimal = (\<lambda>d. str_int \<lfloor>d\<rfloor> @ ''.0'')\<rparr>"

text \<open>The process when \<open>pre_loop\<close> has run and has read the level 5.\<close>

definition ex_plc2_ready :: plc2 where
  "ex_plc2_ready = plc2_pre_loop (ReadOk 5) ex_plc2"

text \<open>Reads of the main loop: a level, a failure, a level.\<close>

definition ex_reads :: "(reading \<times> datetime) list" where
  "ex_reads = [(ReadOk 3, 1), (ReadFails, 2), (ReadOk 4, 3)]"

text \<open>The process after these reads.\<close>

definition ex_plc2_run :: plc2 where
  "ex_plc2_run = snd (plc2_main_loop ex_reads ex_plc2_ready)"

section \<open>Properties\<close>

subsection \<open>Strings\<close>

lemma lowered_simps:
  "lowered (VStr s) = Some (lower s)" "lowered (VInt n) = None" "lowered (VBool b) = None"
  by (simp_all add: lowered_def)

lemma lower_Nil: "lower [] = []"
  by (simp add: lower_def)

lemma lower_Cons: "lower (c # s) = lower_char c # lower s"
  by (simp add: lower_def)

lemmas lower_eval = lowered_simps lower_Cons lower_Nil lower_char_def

subsection \<open>set_tag\<close>

text \<open>
  C1 (as amended). For every actuator tag \<open>t\<close> of the PLC, \<open>set_tag\<close> with a string that
  lowercases to \<open>open\<close> stores 1 under \<open>t\<close>, with a string that lowercases to \<open>closed\<close> it
  stores 0, and nothing else changes; with any other value it fails with
  \<open>InvalidControlValue\<close>. The numbers 0 and 1 are such other values.
\<close>

theorem set_tag_symbolic:
  assumes "t \<in> set (plc_actuators p)"
  shows "(lowered v = Some ''open'' \<longrightarrow>
            set_tag t v p = Inr (p\<lparr>memory := (memory p)((t, 1) \<mapsto> 1)\<rparr>))
       \<and> (lowered v = Some ''closed'' \<longrightarrow>
            set_tag t v p = Inr (p\<lparr>memory := (memory p)((t, 1) \<mapsto> 0)\<rparr>))
       \<and> (lowered v \<noteq> Some ''open'' \<and> lowered v \<noteq> Some ''closed'' \<longrightarrow>
            set_tag t v p = Inl (InvalidControlValue v))"
  using assms by (simp add: set_tag_def device_set_def)

theorem set_tag_symbolic_witness:
  "''PMP1'' \<in> set (plc_actuators ex_plc)
   \<and> lowered (VStr ''Open'') = Some ''open''
   \<and> set_tag ''PMP1'' (VStr ''Open'') ex_plc =
       Inr (ex_plc\<lparr>memory := (memory ex_plc)((''PMP1'', 1) \<mapsto> 1)\<rparr>)
   \<and> lowered (VStr ''CLOSED'') = Some ''closed''
   \<and> set_tag ''PMP1'' (VStr ''CLOSED'') ex_plc =
       Inr (ex_plc\<lparr>memory := (memory ex_plc)((''PMP1'', 1) \<mapsto> 0)\<rparr>)
   \<and> set_tag ''PMP1'' (VStr ''on'') ex_plc = Inl (InvalidControlValue (VStr ''on''))
   \<and> set_tag ''PMP1'' (VInt 1) ex_plc = Inl (InvalidControlValue (VInt 1))"
proof -
  have a: "''PMP1'' \<in> set (plc_actuators ex_plc)"
    by (simp add: ex_plc_def)
  have o: "lowered (VStr ''Open'') = Some ''open''"
    by (simp add: lower_eval)
  have c: "lowered (VStr ''CLOSED'') = Some ''closed''"
    by (simp add: lower_eval)
  have n: "lowered (VStr ''on'') \<noteq> Some ''open'' \<and> lowered (VStr ''on'') \<noteq> Some ''closed''"
    by (simp add: lower_eval)
  have i: "lowered (VInt 1) \<noteq> Some ''open'' \<and> lowered (VInt 1) \<noteq> Some ''closed''"
    by (simp add: lowered_simps)
  show ?thesis
    using a o c n i
      set_tag_symbolic [OF a, of "VStr ''Open''"] set_tag_symbolic [OF a, of "VStr ''CLOSED''"]
      set_tag_symbolic [OF a, of "VStr ''on''"] set_tag_symbolic [OF a, of "VInt 1"]
    by simp
qed

text \<open>
  The claim as written also lets \<open>set_tag\<close> take the binary value itself. On the PLC's own
  pump, the number 1 is refused and does not do what \<open>open\<close> does.
\<close>

theorem set_tag_binary_counterexample:
  "''PMP1'' \<in> set (plc_actuators ex_plc) \<and>
   set_tag ''PMP1'' (VInt 1) ex_plc \<noteq> set_tag ''PMP1'' (VStr ''open'') ex_plc \<and>
   set_tag ''PMP1'' (VInt 1) ex_plc = Inl (InvalidControlValue (VInt 1)) \<and>
   set_tag ''PMP1'' (VInt 0) ex_plc = Inl (InvalidControlValue (VInt 0))"
  by (simp add: set_tag_def lower_eval ex_plc_def)

text \<open>
  C2 (as amended). For every tag \<open>t\<close> that is in neither of the PLC's lists, \<open>set_tag\<close>
  fails: with \<open>TagDoesNotExist\<close> when the value is a string that lowercases to \<open>open\<close> or
  \<open>closed\<close>, and with \<open>InvalidControlValue\<close> for every other value, because the value is
  checked before the tag.
\<close>

theorem set_tag_not_owned:
  assumes "t \<notin> set (plc_sensors p)" and "t \<notin> set (plc_actuators p)"
  shows "(lowered v = Some ''open'' \<or> lowered v = Some ''closed'' \<longrightarrow>
            set_tag t v p = Inl (TagDoesNotExist (t @ '' cannot be set from '' @ plc_name p)))
       \<and> (lowered v \<noteq> Some ''open'' \<and> lowered v \<noteq> Some ''closed'' \<longrightarrow>
            set_tag t v p = Inl (InvalidControlValue v))"
  using assms by (simp add: set_tag_def)

theorem set_tag_not_owned_witness:
  "''T2'' \<notin> set (plc_sensors ex_plc) \<and> ''T2'' \<notin> set (plc_actuators ex_plc)
   \<and> lowered (VStr ''open'') = Some ''open''
   \<and> set_tag ''T2'' (VStr ''open'') ex_plc = Inl (TagDoesNotExist ''T2 cannot be set from PLC1'')
   \<and> set_tag ''T2'' (VInt 1) ex_plc = Inl (InvalidControlValue (VInt 1))"
proof -
  have s: "''T2'' \<notin> set (plc_sensors ex_plc)" and a: "''T2'' \<notin> set (plc_actuators ex_plc)"
    by (simp_all add: ex_plc_def)
  have n: "plc_name ex_plc = ''PLC1''"
    by (simp add: ex_plc_def)
  have o: "lowered (VStr ''open'') = Some ''open''"
    by (simp add: lower_eval)
  have i: "lowered (VInt 1) \<noteq> Some ''open'' \<and> lowered (VInt 1) \<noteq> Some ''closed''"
    by (simp add: lowered_simps)
  show ?thesis
    using s a o i n
      set_tag_not_owned [OF s a, of "VStr ''open''"] set_tag_not_owned [OF s a, of "VInt 1"]
    by simp
qed

text \<open>
  The claim as written promises \<open>TagDoesNotExist\<close> for every value. For a tag the PLC
  does not own and the value 1, the failure is \<open>InvalidControlValue\<close>.
\<close>

theorem set_tag_not_owned_counterexample:
  "''T2'' \<notin> set (plc_sensors ex_plc) \<and> ''T2'' \<notin> set (plc_actuators ex_plc) \<and>
   set_tag ''T2'' (VInt 1) ex_plc = Inl (InvalidControlValue (VInt 1)) \<and>
   set_tag ''T2'' (VInt 1) ex_plc \<noteq> Inl (TagDoesNotExist ''T2 cannot be set from PLC1'')"
  by (simp add: set_tag_def lowered_simps ex_plc_def)

subsection \<open>create_controls and create_attacks\<close>

lemma create_controls_step_eq:
  "create_controls_step ret c = ret @ (if recognised_control c then [control_of c] else [])"
  by (simp add: create_controls_step_def recognised_control_def control_of_def Let_def)

lemma foldl_create_controls_step:
  "foldl create_controls_step ret cs = ret @ map control_of (filter recognised_control cs)"
  by (induction cs arbitrary: ret) (simp_all add: create_controls_step_eq)

lemma create_attacks_step_eq:
  "create_attacks_step ret a = ret @ (if recognised_attack a then [attack_of a] else [])"
  by (simp add: create_attacks_step_def recognised_attack_def attack_of_def)

lemma foldl_create_attacks_step:
  "foldl create_attacks_step ret as = ret @ map attack_of (filter recognised_attack as)"
  by (induction as arbitrary: ret) (simp_all add: create_attacks_step_eq)

text \<open>
  C10. \<open>create_controls\<close> builds exactly the rule objects of the entries whose lowercased
  type is \<open>above\<close>, \<open>below\<close> or \<open>time\<close>, in input order, and \<open>create_attacks\<close> those of
  the entries whose lowercased type is \<open>time\<close>, \<open>above\<close>, \<open>below\<close> or \<open>between\<close>; an
  entry of any other type is dropped without an error: the result is the same as if the
  entry were not in the list.
\<close>

theorem create_rules_recognised_only:
  "create_controls cs = map control_of (filter recognised_control cs)
   \<and> create_attacks as = map attack_of (filter recognised_attack as)
   \<and> (\<not> recognised_control c \<longrightarrow> create_controls (cs1 @ c # cs2) = create_controls (cs1 @ cs2))
   \<and> (\<not> recognised_attack a \<longrightarrow> create_attacks (as1 @ a # as2) = create_attacks (as1 @ as2))"
  by (simp add: create_controls_def create_attacks_def foldl_create_controls_step
      foldl_create_attacks_step create_controls_step_eq create_attacks_step_eq)


theorem create_rules_recognised_only_witness:
  "create_controls ex_controls =
     [AboveControl ''PMP1'' (VStr ''closed'') ''T1'' 20, TimeControl ''V2'' (VStr ''open'') 3,
      BelowControl ''PMP1'' (VStr ''open'') ''T1'' 10]
   \<and> create_attacks ex_attacks =
     [TriggerBetweenAttack ''a1'' ''PMP1'' (VStr ''closed'') ''T1'' 5 15,
      TimeAttack ''a3'' ''V2'' (VStr ''open'') 5 10]
   \<and> \<not> recognised_control (ex_controls ! 1)
   \<and> create_controls ([ex_controls ! 0] @ ex_controls ! 1 # [ex_controls ! 2]) =
       create_controls ([ex_controls ! 0] @ [ex_controls ! 2])
   \<and> \<not> recognised_attack (ex_attacks ! 1)
   \<and> create_attacks ([ex_attacks ! 0] @ ex_attacks ! 1 # []) = create_attacks ([ex_attacks ! 0] @ [])"
proof -
  have c: "\<not> recognised_control (ex_controls ! 1)"
    by (simp add: ex_controls_def recognised_control_def lower_eval)
  have a: "\<not> recognised_attack (ex_attacks ! 1)"
    by (simp add: ex_attacks_def recognised_attack_def lower_eval)
  have fc: "map control_of (filter recognised_control ex_controls) =
     [AboveControl ''PMP1'' (VStr ''closed'') ''T1'' 20, TimeControl ''V2'' (VStr ''open'') 3,
      BelowControl ''PMP1'' (VStr ''open'') ''T1'' 10]"
    by (simp add: ex_controls_def recognised_control_def control_of_def lower_eval)
  have fa: "map attack_of (filter recognised_attack ex_attacks) =
     [TriggerBetweenAttack ''a1'' ''PMP1'' (VStr ''closed'') ''T1'' 5 15,
      TimeAttack ''a3'' ''V2'' (VStr ''open'') 5 10]"
    by (simp add: ex_attacks_def recognised_attack_def attack_of_def lower_eval)
  show ?thesis
    using c a fc fa
      create_rules_recognised_only [of ex_controls ex_attacks "ex_controls ! 1" "[ex_controls ! 0]"
        "[ex_controls ! 2]" "ex_attacks ! 1" "[ex_attacks ! 0]" "[]"]
    by simp
qed

subsection \<open>get_tag\<close>

text \<open>
  The scan of the topology finds the first entry, other than the PLC's own, that declares
  the tag, provided every entry it looks at has both lists.
\<close>

lemma scan_plcs_find:
  assumes "\<forall>(i, d) \<in> set xs. int i \<noteq> yaml_index p \<longrightarrow> has_lists d"
  shows "scan_plcs t xs p =
     (case find (\<lambda>(i, d). int i \<noteq> yaml_index p \<and> declares t d) xs of
        None \<Rightarrow> Inl (TagDoesNotExist t)
      | Some (i, d) \<Rightarrow> device_receive (t, 1) (public_ip d) p)"
  using assms
proof (induction xs)
  case Nil
  then show ?case by simp
next
  case (Cons x xs)
  obtain i d where x: "x = (i, d)" by (cases x)
  show ?case
  proof (cases "int i = yaml_index p")
    case True
    with Cons x show ?thesis by simp
  next
    case False
    with Cons.prems x have "has_lists d" by simp
    then obtain ss as where l: "sensors d = Some ss" "actuators d = Some as"
      by (auto simp: has_lists_def)
    with Cons x False show ?thesis
      by (simp add: declares_def)
  qed
qed

text \<open>
  On a topology whose entries (the PLC's own apart) carry both lists, \<open>get_tag\<close>
  returns the locally stored value, with no network receive, when the tag is in the PLC's
  own lists; otherwise it returns the value received from the first entry in list order,
  the PLC's own index skipped, that declares the tag, and that receive is the only one it
  issues; and when no entry declares the tag it raises \<open>TagDoesNotExist\<close>.
\<close>

lemma get_tag_resolution:
  assumes "\<forall>(i, d) \<in> set (enumerate 0 (plcs p)). int i \<noteq> yaml_index p \<longrightarrow> has_lists d"
  shows "get_tag t p =
     (if t \<in> set (plc_sensors p) \<or> t \<in> set (plc_actuators p)
      then (case memory p (t, 1) of None \<Rightarrow> Inl DeviceError | Some v \<Rightarrow> Inr (v, p))
      else (case find (\<lambda>(i, d). int i \<noteq> yaml_index p \<and> declares t d) (enumerate 0 (plcs p)) of
              None \<Rightarrow> Inl (TagDoesNotExist t)
            | Some (i, d) \<Rightarrow>
                (case network p (public_ip d) (t, 1) of
                   None \<Rightarrow> Inl DeviceError
                 | Some v \<Rightarrow> Inr (v, p\<lparr>received := received p @ [((t, 1), public_ip d)]\<rparr>))))"
  using scan_plcs_find [OF assms, of t]
  by (simp add: get_tag_def device_get_def device_receive_def split: option.splits prod.splits)

lemma get_tag_resolution_example:
  "get_tag ''T1'' ex_plc = Inr (25 / 2, ex_plc)
   \<and> get_tag ''T2'' ex_plc = Inr (8, ex_plc\<lparr>received := [((''T2'', 1), ''10.0.0.2'')]\<rparr>)
   \<and> get_tag ''T3'' ex_plc = Inr (3, ex_plc\<lparr>received := [((''T3'', 1), ''10.0.0.3'')]\<rparr>)
   \<and> get_tag ''T9'' ex_plc = Inl (TagDoesNotExist ''T9'')"
proof -
  have h: "\<forall>(i, d) \<in> set (enumerate 0 (plcs ex_plc)). int i \<noteq> yaml_index ex_plc \<longrightarrow> has_lists d"
    by (simp add: ex_plc_def enumerate_eq_zip upt_rec has_lists_def)
  have e: "enumerate 0 (plcs ex_plc) =
      [(0, \<lparr>name = ''PLC1'', public_ip = ''10.0.0.1'', sensors = Some [''T1''], actuators = Some [''PMP1'']\<rparr>),
       (1, \<lparr>name = ''PLC2'', public_ip = ''10.0.0.2'', sensors = Some [''T2''], actuators = Some [''V2'']\<rparr>),
       (2, \<lparr>name = ''PLC3'', public_ip = ''10.0.0.3'', sensors = Some [''T2'', ''T3''], actuators = Some []\<rparr>)]"
    by (simp add: ex_plc_def enumerate_eq_zip upt_rec)
  have y: "yaml_index ex_plc = 0" "plc_sensors ex_plc = [''T1'']" "plc_actuators ex_plc = [''PMP1'']"
    "received ex_plc = []"
    by (simp_all add: ex_plc_def)
  have m: "memory ex_plc (''T1'', 1) = Some (25 / 2)"
    by (simp add: ex_plc_def)
  have n: "network ex_plc ''10.0.0.2'' (''T2'', 1) = Some 8"
    "network ex_plc ''10.0.0.3'' (''T3'', 1) = Some 3"
    by (simp_all add: ex_plc_def)
  show ?thesis
    using m n get_tag_resolution [OF h, of "''T1''"] get_tag_resolution [OF h, of "''T2''"]
      get_tag_resolution [OF h, of "''T3''"] get_tag_resolution [OF h, of "''T9''"]
    by (simp add: e y declares_def)
qed

text \<open>
  C3. The claim fails on a topology with an entry that lacks the key \<open>sensors\<close>: the scan
  reads \<open>plc_data["sensors"]\<close> of every entry it reaches. In \<open>ex_plc_sparse\<close> no entry
  declares \<open>T9\<close>, and \<open>get_tag\<close> raises \<open>KeyError\<close> where the claim (and the docstring of
  \<open>get_tag\<close>) says \<open>TagDoesNotExist\<close>; the third entry is the only one that declares \<open>T3\<close>
  and its peer would answer 3, and \<open>get_tag\<close> raises \<open>KeyError\<close> and issues no receive
  where the claim says it returns the value received from that entry. The constructor
  (lines 44-48) supplies the missing lists for the PLC's own entry only.
\<close>

theorem get_tag_peer_without_sensors:
  "filter (declares ''T9'') (plcs ex_plc_sparse) = []
   \<and> get_tag ''T9'' ex_plc_sparse = Inl (KeyError ''sensors'')
   \<and> get_tag ''T9'' ex_plc_sparse \<noteq> Inl (TagDoesNotExist ''T9'')
   \<and> map name (filter (declares ''T3'') (plcs ex_plc_sparse)) = [''PLC3'']
   \<and> network ex_plc_sparse ''10.0.0.3'' (''T3'', 1) = Some 3
   \<and> get_tag ''T3'' ex_plc_sparse = Inl (KeyError ''sensors'')
   \<and> get_tag ''T3'' ex_plc_sparse \<noteq>
       Inr (3, ex_plc_sparse\<lparr>received := received ex_plc_sparse @ [((''T3'', 1), ''10.0.0.3'')]\<rparr>)"
  by (simp add: get_tag_def ex_plc_sparse_def ex_plc_def enumerate_eq_zip upt_rec declares_def)

subsection \<open>set_sync\<close>

lemma filter_update_other:
  "n \<noteq> m \<Longrightarrow>
   filter (\<lambda>(n', f). n' = n) (map (\<lambda>(n', f'). if n' = m then (n', v) else (n', f')) rows) =
   filter (\<lambda>(n', f). n' = n) rows"
  by (induction rows) (auto split: if_splits)

lemma filter_update_own:
  "filter (\<lambda>(n', f). n' = m) (map (\<lambda>(n', f'). if n' = m then (n', v) else (n', f')) rows) =
   map (\<lambda>(n', f). (n', v)) (filter (\<lambda>(n', f). n' = m) rows)"
  by (induction rows) (auto split: if_splits)

lemma db_view_commit_update:
  "db_view (commit (update_sync v m c)) =
   (db_view c)\<lparr>sync := map (\<lambda>(n', f'). if n' = m then (n', v) else (n', f')) (sync (db_view c))\<rparr>"
  by (simp add: commit_def update_sync_def db_view_def)

lemma select_flag_update_other:
  "n \<noteq> m \<Longrightarrow> select_flag n (commit (update_sync v m c)) = select_flag n c"
  by (simp add: select_flag_def db_view_commit_update filter_update_other)

lemma select_flag_update_own:
  "select_flag m (commit (update_sync v m c)) =
   (case select_flag m c of Inl e \<Rightarrow> Inl e | Inr old \<Rightarrow> Inr v)"
  by (simp add: select_flag_def db_view_commit_update filter_update_own split: list.splits)

lemma select_time_update:
  "select_time (commit (update_sync v m c)) = select_time c"
  by (simp add: select_time_def db_view_commit_update)

text \<open>
  C7. \<open>set_sync\<close> is a function of the PLC's state alone (it waits for nothing): it
  changes only the database connection, leaves no transaction open, and the committed
  database is the one the connection saw with the flag of every row of this PLC's name set
  to \<open>int(flag)\<close>, which is the number itself for a number, 1 for \<open>True\<close> and 0 for
  \<open>False\<close>: after \<open>set_sync(k)\<close> the PLC's own flag reads \<open>k\<close>. The \<open>master_time\<close> table
  and the flag of every other name are what they were.
\<close>

theorem set_sync_frame:
  "int_of_flag (FlagInt k) = k
   \<and> int_of_flag (FlagBool b) = (if b then 1 else 0)
   \<and> committed (conn (set_sync (FlagInt k) p)) =
       (db_view (conn p))\<lparr>sync := map (\<lambda>(n, fl). if n = plc_name p then (n, k) else (n, fl))
                                     (sync (db_view (conn p)))\<rparr>
   \<and> (select_flag (plc_name p) (conn p) = Inr old \<longrightarrow>
        select_flag (plc_name p) (conn (set_sync (FlagInt k) p)) = Inr k
      \<and> select_flag (plc_name p) (conn (set_sync (FlagBool b) p)) = Inr (if b then 1 else 0))
   \<and> set_sync f p = p\<lparr>conn := conn (set_sync f p)\<rparr>
   \<and> working (conn (set_sync f p)) = None
   \<and> committed (conn (set_sync f p)) =
       (db_view (conn p))\<lparr>sync := map (\<lambda>(n, fl). if n = plc_name p then (n, int_of_flag f) else (n, fl))
                                     (sync (db_view (conn p)))\<rparr>
   \<and> master_time (committed (conn (set_sync f p))) = master_time (db_view (conn p))
   \<and> get_master_clock (set_sync f p) = get_master_clock p
   \<and> (\<forall>n. n \<noteq> plc_name p \<longrightarrow> select_flag n (conn (set_sync f p)) = select_flag n (conn p))
   \<and> select_flag (plc_name p) (conn (set_sync f p)) =
       (case select_flag (plc_name p) (conn p) of Inl e \<Rightarrow> Inl e | Inr old \<Rightarrow> Inr (int_of_flag f))"
proof -
  have c: "conn (set_sync g p) = commit (update_sync (int_of_flag g) (plc_name p) (conn p))" for g
    by (simp add: set_sync_def)
  have v: "committed (commit (update_sync w (plc_name p) (conn p))) =
      db_view (commit (update_sync w (plc_name p) (conn p)))" for w
    by (simp add: commit_def db_view_def)
  have i: "int_of_flag (FlagInt k) = k" "int_of_flag (FlagBool b) = (if b then 1 else 0)"
    by (simp_all add: int_of_flag_def)
  have s: "set_sync f p = p\<lparr>conn := conn (set_sync f p)\<rparr>"
    by (simp add: set_sync_def)
  have w: "working (conn (set_sync f p)) = None"
    by (simp add: set_sync_def commit_def)
  show ?thesis
    unfolding c
    using s w
    by (simp add: i v db_view_commit_update select_flag_update_other select_flag_update_own
        get_master_clock_def select_time_update c)
qed

theorem set_sync_frame_witness:
  "select_flag (plc_name ex_plc_released) (conn ex_plc_released) = Inr 0
   \<and> select_flag (plc_name ex_plc_released) (conn (set_sync (FlagInt 1) ex_plc_released)) = Inr 1
   \<and> select_flag (plc_name ex_plc_released) (conn (set_sync (FlagBool True) ex_plc_released)) = Inr 1
   \<and> committed (conn (set_sync (FlagInt 1) ex_plc_released)) =
       \<lparr>sync = [(''PLC1'', 1), (''PLC2'', 0), (''PLC3'', 0)], master_time = [(1, 8)]\<rparr>
   \<and> working (conn (set_sync (FlagInt 1) ex_plc_released)) = None
   \<and> ''PLC3'' \<noteq> plc_name ex_plc_released
   \<and> select_flag ''PLC3'' (conn (set_sync (FlagInt 1) ex_plc_released)) = Inr 0
   \<and> get_master_clock (set_sync (FlagInt 1) ex_plc_released) = Inr 8
   \<and> committed (conn (set_sync (FlagBool False) ex_plc)) =
       \<lparr>sync = [(''PLC1'', 0), (''PLC2'', 0), (''PLC3'', 1)], master_time = [(1, 7)]\<rparr>
   \<and> select_flag ''PLC1'' (conn (set_sync (FlagBool False) ex_plc)) = Inr 0"
proof -
  have n: "plc_name ex_plc = ''PLC1''" "plc_name ex_plc_released = ''PLC1''"
    by (simp_all add: ex_plc_def ex_plc_released_def)
  have d: "db_view (conn ex_plc) =
      \<lparr>sync = [(''PLC1'', 1), (''PLC2'', 0), (''PLC3'', 1)], master_time = [(1, 7)]\<rparr>"
    "db_view (conn ex_plc_released) =
      \<lparr>sync = [(''PLC1'', 0), (''PLC2'', 0), (''PLC3'', 0)], master_time = [(1, 8)]\<rparr>"
    by (simp_all add: ex_plc_def ex_plc_released_def db_view_def)
  have s: "select_flag ''PLC1'' (conn ex_plc) = Inr 1"
    "select_flag ''PLC3'' (conn ex_plc_released) = Inr 0"
    "select_flag ''PLC1'' (conn ex_plc_released) = Inr 0"
    by (simp_all add: select_flag_def d)
  have t: "get_master_clock ex_plc_released = Inr 8"
    by (simp add: get_master_clock_def select_time_def d)
  show ?thesis
    using set_sync_frame [of 1 True ex_plc_released 0 "FlagInt 1"]
      set_sync_frame [of 0 False ex_plc 1 "FlagBool False"]
    by (simp add: n d s t)
qed

subsection \<open>Rule application: what it leaves alone\<close>

lemma set_tag_Inr:
  assumes "set_tag a v p = Inr p'"
  shows "action_state v \<noteq> None \<and> p' = p\<lparr>memory := (memory p)((a, 1) := action_state v)\<rparr>"
  using assms
  by (auto simp: set_tag_def action_state_def device_set_def split: if_splits)

lemma scan_plcs_Inr:
  "scan_plcs t xs p = Inr (v, p') \<Longrightarrow> \<exists>r. p' = p\<lparr>received := r\<rparr>"
  by (induction xs) (auto simp: device_receive_def split: if_splits option.splits)

lemma get_tag_Inr:
  assumes "get_tag t p = Inr (v, p')"
  shows "\<exists>r. p' = p\<lparr>received := r\<rparr>"
proof (cases "t \<in> set (plc_sensors p) \<or> t \<in> set (plc_actuators p)")
  case True
  with assms have "p' = p"
    by (auto simp: get_tag_def split: sum.splits)
  then have "p' = p\<lparr>received := received p\<rparr>" by simp
  then show ?thesis ..
next
  case False
  with assms show ?thesis
    by (auto simp: get_tag_def dest: scan_plcs_Inr)
qed

lemma control_holds_Inr:
  "control_holds c p = Inr (b, p') \<Longrightarrow> \<exists>r. p' = p\<lparr>received := r\<rparr>"
proof (cases c)
  case (TimeControl a act v)
  assume "control_holds c p = Inr (b, p')"
  with TimeControl have "p' = p\<lparr>received := received p\<rparr>"
    by (auto split: sum.splits)
  then show ?thesis ..
qed (auto split: sum.splits dest: get_tag_Inr)

lemma attack_holds_Inr:
  "attack_holds a p = Inr (b, p') \<Longrightarrow> \<exists>r. p' = p\<lparr>received := r\<rparr>"
proof (cases a)
  case (TimeAttack n act cmd s e)
  assume "attack_holds a p = Inr (b, p')"
  with TimeAttack have "p' = p\<lparr>received := received p\<rparr>"
    by (auto split: sum.splits)
  then show ?thesis ..
qed (auto split: sum.splits dest: get_tag_Inr)

lemma control_apply_Inr:
  assumes "control_apply c p = Inr p'"
  shows "trace p' = trace p \<and> controls p' = controls p \<and> attacks p' = attacks p
       \<and> (\<forall>t. t \<noteq> control_actuator_of c \<longrightarrow> memory p' (t, 1) = memory p (t, 1))
       \<and> (\<forall>q. control_holds c p = Inr (True, q) \<longrightarrow>
            memory p' (control_actuator_of c, 1) = action_state (control_action_of c)
            \<and> action_state (control_action_of c) \<noteq> None)"
proof -
  from assms obtain b q where h: "control_holds c p = Inr (b, q)"
    by (auto simp: control_apply_def split: sum.splits)
  then obtain r where q: "q = p\<lparr>received := r\<rparr>"
    by (auto dest: control_holds_Inr)
  show ?thesis
  proof (cases b)
    case True
    with assms h have "set_tag (control_actuator_of c) (control_action_of c) q = Inr p'"
      by (simp add: control_apply_def)
    from set_tag_Inr [OF this] q h True show ?thesis by auto
  next
    case False
    with assms h q have "p' = p\<lparr>received := r\<rparr>" by (simp add: control_apply_def)
    with h False show ?thesis by simp
  qed
qed

lemma attack_apply_Inr:
  assumes "attack_apply a p = Inr p'"
  shows "trace p' = trace p \<and> controls p' = controls p \<and> attacks p' = attacks p
       \<and> (\<forall>t. t \<noteq> attack_actuator_of a \<longrightarrow> memory p' (t, 1) = memory p (t, 1))
       \<and> (\<forall>q. attack_holds a p = Inr (True, q) \<longrightarrow>
            memory p' (attack_actuator_of a, 1) = action_state (attack_command_of a)
            \<and> action_state (attack_command_of a) \<noteq> None)"
proof -
  from assms obtain b q where h: "attack_holds a p = Inr (b, q)"
    by (auto simp: attack_apply_def split: sum.splits)
  then obtain r where q: "q = p\<lparr>received := r\<rparr>"
    by (auto dest: attack_holds_Inr)
  show ?thesis
  proof (cases b)
    case True
    with assms h have "set_tag (attack_actuator_of a) (attack_command_of a) q = Inr p'"
      by (simp add: attack_apply_def)
    from set_tag_Inr [OF this] q h True show ?thesis by auto
  next
    case False
    with assms h q have "p' = p\<lparr>received := r\<rparr>" by (simp add: attack_apply_def)
    with h False show ?thesis by simp
  qed
qed

subsection \<open>main_loop: the barrier\<close>

lemma released_append:
  "released r (xs @ ys) = (released r xs \<and> released (released_after r xs) ys)"
  by (induction r xs rule: released.induct) auto

lemma released_after_append:
  "released_after r (xs @ ys) = released_after (released_after r xs) ys"
  by (induction r xs rule: released_after.induct) auto

lemma get_sync_log_event: "get_sync (log_event e p) = get_sync p"
  by (simp add: get_sync_def log_event_def)

lemma time_sleep_simps:
  "trace (time_sleep sim p) = trace p @ [Sleep 10]"
  "clock (time_sleep sim p) = Suc (clock p)"
  "controls (time_sleep sim p) = controls p"
  "attacks (time_sleep sim p) = attacks p"
  "memory (time_sleep sim p) = memory p"
  by (simp_all add: time_sleep_def log_event_def)

lemma log_event_simps:
  "trace (log_event e p) = trace p @ [e]"
  "clock (log_event e p) = clock p"
  "controls (log_event e p) = controls p"
  "attacks (log_event e p) = attacks p"
  "memory (log_event e p) = memory p"
  by (simp_all add: log_event_def)

lemma polls_Suc:
  "[GetSync True, Sleep 10] @ concat (replicate k [GetSync True, Sleep 10]) =
   concat (replicate (Suc k) [GetSync True, Sleep 10])"
  by simp

lemma wait_for_release_Returned:
  "wait_for_release sim fuel p = Returned p' \<Longrightarrow>
     get_sync p' = Inr False \<and> clock p \<le> clock p' \<and> clock p' - clock p < fuel
   \<and> trace p' = trace p @ concat (replicate (clock p' - clock p) [GetSync True, Sleep 10])
                  @ [GetSync False]
   \<and> controls p' = controls p \<and> attacks p' = attacks p \<and> memory p' = memory p"
proof (induction fuel arbitrary: p)
  case 0
  then show ?case by simp
next
  case (Suc fuel)
  from Suc.prems obtain b where b: "get_sync p = Inr b"
    by (auto split: sum.splits)
  show ?case
  proof (cases b)
    case False
    with Suc.prems b have "p' = log_event (GetSync False) p" by simp
    with b False show ?thesis by (simp add: get_sync_log_event log_event_simps)
  next
    case True
    let ?q = "time_sleep sim (log_event (GetSync True) p)"
    from Suc.prems b True have "wait_for_release sim fuel ?q = Returned p'" by simp
    from Suc.IH [OF this]
    have ih: "get_sync p' = Inr False" "Suc (clock p) \<le> clock p'"
      "clock p' - Suc (clock p) < fuel"
      "trace p' = (trace p @ [GetSync True, Sleep 10])
                   @ concat (replicate (clock p' - Suc (clock p)) [GetSync True, Sleep 10])
                   @ [GetSync False]"
      "controls p' = controls p" "attacks p' = attacks p" "memory p' = memory p"
      by (simp_all add: time_sleep_simps log_event_simps)
    from ih(2) have k: "clock p' - clock p = Suc (clock p' - Suc (clock p))" by simp
    from ih show ?thesis unfolding k by simp
  qed
qed

lemma wait_for_release_Running:
  "wait_for_release sim fuel p = Running p' \<Longrightarrow>
     trace p' = trace p @ concat (replicate fuel [GetSync True, Sleep 10])"
proof (induction fuel arbitrary: p)
  case 0
  then show ?case by simp
next
  case (Suc fuel)
  from Suc.prems obtain b where b: "get_sync p = Inr b"
    by (auto split: sum.splits)
  with Suc.prems have t: "b" by (auto split: if_splits)
  let ?q = "time_sleep sim (log_event (GetSync True) p)"
  from Suc.prems b t have "wait_for_release sim fuel ?q = Running p'" by simp
  from Suc.IH [OF this] show ?case
    by (simp add: time_sleep_simps log_event_simps)
qed

lemma wait_for_release_Raised:
  "wait_for_release sim fuel p = Raised e p' \<Longrightarrow>
     \<exists>k. trace p' = trace p @ concat (replicate k [GetSync True, Sleep 10])"
proof (induction fuel arbitrary: p)
  case 0
  then show ?case by simp
next
  case (Suc fuel)
  show ?case
  proof (cases "get_sync p")
    case (Inl e')
    with Suc.prems have "p' = p" by simp
    then have "trace p' = trace p @ concat (replicate 0 [GetSync True, Sleep 10])" by simp
    then show ?thesis ..
  next
    case (Inr b)
    with Suc.prems have t: "b" by (auto split: if_splits)
    let ?q = "time_sleep sim (log_event (GetSync True) p)"
    from Suc.prems Inr t have "wait_for_release sim fuel ?q = Raised e p'" by simp
    from Suc.IH [OF this] obtain k where
      "trace p' = trace ?q @ concat (replicate k [GetSync True, Sleep 10])" ..
    then have "trace p' = trace p @ concat (replicate (Suc k) [GetSync True, Sleep 10])"
      by (simp add: time_sleep_simps log_event_simps)
    then show ?thesis ..
  qed
qed

lemma released_polls:
  "released r (concat (replicate k [GetSync True, Sleep 10]))"
  by (induction k arbitrary: r) simp_all

lemma released_wait:
  assumes "released r (trace p)"
  shows "released r (trace (state_of (wait_for_release sim fuel p)))"
proof (cases "wait_for_release sim fuel p")
  case (Returned p')
  from wait_for_release_Returned [OF this] assms show ?thesis
    by (simp add: Returned released_append released_polls)
next
  case (Raised e p')
  from wait_for_release_Raised [OF this] assms show ?thesis
    by (auto simp add: Raised released_append released_polls)
next
  case (Running p')
  from wait_for_release_Running [OF this] assms show ?thesis
    by (simp add: Running released_append released_polls)
qed

lemma released_after_wait:
  assumes "wait_for_release sim fuel p = Returned p'"
  shows "released_after r (trace p')"
  using wait_for_release_Returned [OF assms]
  by (simp add: released_after_append)

lemma released_apply_controls:
  "released r (trace p) \<Longrightarrow> released_after r (trace p) \<Longrightarrow>
     released r (trace (state_of (apply_controls cs p)))
   \<and> released_after r (trace (state_of (apply_controls cs p)))"
proof (induction cs arbitrary: p)
  case Nil
  then show ?case by simp
next
  case (Cons c cs)
  let ?q = "log_event (ApplyControl c) p"
  from Cons.prems have q: "released r (trace ?q)" "released_after r (trace ?q)"
    by (simp_all add: log_event_simps released_append released_after_append)
  show ?case
  proof (cases "control_apply c ?q")
    case (Inl e)
    with q show ?thesis by simp
  next
    case (Inr p')
    from control_apply_Inr [OF this] have "trace p' = trace ?q" by simp
    with q have "released r (trace p')" "released_after r (trace p')" by simp_all
    from Cons.IH [OF this] Inr show ?thesis by simp
  qed
qed

lemma released_apply_attacks:
  "released r (trace p) \<Longrightarrow> released_after r (trace p) \<Longrightarrow>
     released r (trace (state_of (apply_attacks as p)))
   \<and> released_after r (trace (state_of (apply_attacks as p)))"
proof (induction as arbitrary: p)
  case Nil
  then show ?case by simp
next
  case (Cons a as)
  let ?q = "log_event (ApplyAttack a) p"
  from Cons.prems have q: "released r (trace ?q)" "released_after r (trace ?q)"
    by (simp_all add: log_event_simps released_append released_after_append)
  show ?case
  proof (cases "attack_apply a ?q")
    case (Inl e)
    with q show ?thesis by simp
  next
    case (Inr p')
    from attack_apply_Inr [OF this] have "trace p' = trace ?q" by simp
    with q have "released r (trace p')" "released_after r (trace p')" by simp_all
    from Cons.IH [OF this] Inr show ?thesis by simp
  qed
qed

lemma set_sync_simps:
  "trace (set_sync f p) = trace p" "memory (set_sync f p) = memory p"
  "controls (set_sync f p) = controls p" "attacks (set_sync f p) = attacks p"
  by (simp_all add: set_sync_def)

lemma released_body:
  assumes "released r (trace p)"
  shows "released r (trace (state_of (main_loop_body sim fuel p)))"
proof (cases "wait_for_release sim fuel p")
  case (Returned p1)
  from released_wait [OF assms, of sim fuel] Returned
  have r1: "released r (trace p1)" by simp
  have a1: "released_after r (trace p1)" by (rule released_after_wait [OF Returned])
  from released_apply_controls [OF r1 a1, of "controls p1"]
  have c: "released r (trace (state_of (apply_controls (controls p1) p1)))"
          "released_after r (trace (state_of (apply_controls (controls p1) p1)))"
    by simp_all
  show ?thesis
  proof (cases "apply_controls (controls p1) p1")
    case (Returned p2)
    note R2 = this
    with c have r2: "released r (trace p2)" and a2: "released_after r (trace p2)" by simp_all
    from released_apply_attacks [OF r2 a2, of "attacks p2"]
    have a: "released r (trace (state_of (apply_attacks (attacks p2) p2)))" by simp
    show ?thesis
    proof (cases "apply_attacks (attacks p2) p2")
      case (Returned p3)
      with a have "released r (trace p3)" by simp
      then show ?thesis
        using \<open>wait_for_release sim fuel p = Returned p1\<close> R2 Returned
        by (simp add: main_loop_body_def log_event_simps set_sync_simps released_append)
    next
      case (Raised e q)
      with a show ?thesis
        using \<open>wait_for_release sim fuel p = Returned p1\<close> R2
        by (simp add: main_loop_body_def)
    next
      case (Running q)
      with a show ?thesis
        using \<open>wait_for_release sim fuel p = Returned p1\<close> R2
        by (simp add: main_loop_body_def)
    qed
  next
    case (Raised e q)
    with c show ?thesis
      using \<open>wait_for_release sim fuel p = Returned p1\<close>
      by (simp add: main_loop_body_def)
  next
    case (Running q)
    with c show ?thesis
      using \<open>wait_for_release sim fuel p = Returned p1\<close>
      by (simp add: main_loop_body_def)
  qed
next
  case (Raised e q)
  with released_wait [OF assms, of sim fuel] show ?thesis
    by (simp add: main_loop_body_def)
next
  case (Running q)
  with released_wait [OF assms, of sim fuel] show ?thesis
    by (simp add: main_loop_body_def)
qed

lemma released_main_loop:
  "released r (trace p) \<Longrightarrow> released r (trace (state_of (main_loop sim fuel n tb p)))"
proof (induction n arbitrary: p)
  case 0
  then show ?case by simp
next
  case (Suc n)
  from released_body [OF Suc.prems, of sim fuel]
  have b: "released r (trace (state_of (main_loop_body sim fuel p)))" .
  show ?case
  proof (cases "main_loop_body sim fuel p")
    case (Returned p1)
    with b have "released r (trace p1)" by simp
    from Suc.IH [OF this] this Returned show ?thesis by (cases tb) simp_all
  next
    case (Raised e q)
    with b show ?thesis by simp
  next
    case (Running q)
    with b show ?thesis by simp
  qed
qed

text \<open>
  C6. The wait of lines 311-312 returns only after \<open>get_sync\<close> has read the PLC's own flag as
  0, and the flag still reads 0 in the state it returns; every poll before that read 1 and
  was followed by one sleep of ten milliseconds, and nothing else happened. A wait that is
  still going on after \<open>fuel\<close> polls has done nothing but such polls and sleeps. Over
  any number of iterations of \<open>main_loop\<close>, no control and no attack is applied unless the
  last thing the PLC read or wrote of its own flag is that it is 0.
\<close>

theorem main_loop_barrier:
  "(wait_for_release sim fuel p = Returned p' \<longrightarrow>
      get_sync p' = Inr False
    \<and> trace p' = trace p @ concat (replicate (clock p' - clock p) [GetSync True, Sleep 10])
                   @ [GetSync False])
 \<and> (wait_for_release sim fuel p = Running p' \<longrightarrow>
      trace p' = trace p @ concat (replicate fuel [GetSync True, Sleep 10]))
 \<and> (released r (trace p) \<longrightarrow> released r (trace (state_of (main_loop sim fuel n tb p))))"
  using wait_for_release_Returned [of sim fuel p p'] wait_for_release_Running [of sim fuel p p']
    released_main_loop [of r p sim fuel n tb]
  by blast

lemmas ex_eval =
  ex_plc_def ex_sim_def get_sync_def select_flag_def select_time_def db_view_def
  time_sleep_def log_event_def get_master_clock_def

lemma ex_wait_5:
  "wait_for_release ex_sim 5 ex_plc =
     Returned (ex_plc\<lparr>clock := 2,
                      conn := \<lparr>committed = \<lparr>sync = [(''PLC1'', 0), (''PLC2'', 0), (''PLC3'', 0)],
                                            master_time = [(1, 8)]\<rparr>,
                              working = None\<rparr>,
                      trace := [GetSync True, Sleep 10, GetSync True, Sleep 10, GetSync False]\<rparr>)"
  by (simp add: eval_nat_numeral ex_eval)

lemma ex_wait_1:
  "wait_for_release ex_sim 1 ex_plc =
     Running (ex_plc\<lparr>clock := 1, trace := [GetSync True, Sleep 10]\<rparr>)"
  by (simp add: ex_eval)

theorem main_loop_barrier_witness:
  "wait_for_release ex_sim 5 ex_plc = Returned (state_of (wait_for_release ex_sim 5 ex_plc))
 \<and> get_sync (state_of (wait_for_release ex_sim 5 ex_plc)) = Inr False
 \<and> trace (state_of (wait_for_release ex_sim 5 ex_plc)) =
       [GetSync True, Sleep 10, GetSync True, Sleep 10, GetSync False]
 \<and> wait_for_release ex_sim 1 ex_plc = Running (state_of (wait_for_release ex_sim 1 ex_plc))
 \<and> trace (state_of (wait_for_release ex_sim 1 ex_plc)) = [GetSync True, Sleep 10]
 \<and> released False (trace ex_plc)
 \<and> released False (trace (state_of (main_loop ex_sim 5 1 True ex_plc)))"
  using main_loop_barrier [of ex_sim 5 ex_plc "state_of (wait_for_release ex_sim 5 ex_plc)" False 1 True]
    main_loop_barrier [of ex_sim 1 ex_plc "state_of (wait_for_release ex_sim 1 ex_plc)" False 1 True]
  unfolding ex_wait_5 ex_wait_1 state_of.simps
  by (simp add: ex_eval)

subsection \<open>main_loop: the order of the rules\<close>


















subsection \<open>PLC2: the retries of main_loop\<close>

lemma plc2_loop_fails:
  "c + int (length fs) < 100 \<Longrightarrow> \<forall>x \<in> set fs. fst x = ReadFails \<Longrightarrow>
     plc2_loop (fs @ rs) c s = plc2_loop rs (c + int (length fs)) s"
proof (induction fs arbitrary: c)
  case Nil
  then show ?case by simp
next
  case (Cons x fs)
  obtain rd now where x: "x = (rd, now)" by (cases x)
  with Cons.prems have rd: "rd = ReadFails" by simp
  from Cons.prems have "c + 1 < 100" "(c + 1) + int (length fs) < 100" by simp_all
  with Cons.IH [of "c + 1"] Cons.prems show ?case
    by (simp add: x rd add.assoc)
qed

lemma plc2_loop_abort:
  assumes "c + int (length fs) = 100" and "\<forall>x \<in> set fs. fst x = ReadFails" and "c < 100"
  shows "plc2_loop (fs @ rs) c s =
     (100, s\<lparr>stdout := stdout s @ [''PLC process encountered errors, aborting process''],
             status := Exited 0\<rparr>)"
proof -
  from assms(1,3) have "fs \<noteq> []" by auto
  then obtain gs x where fs: "fs = gs @ [x]" by (metis rev_exhaust)
  obtain rd now where x: "x = (rd, now)" by (cases x)
  with assms(2) fs have rd: "rd = ReadFails" by simp
  from assms(1) fs have l: "c + int (length gs) = 99" by simp
  then have "c + int (length gs) < 100" by simp
  moreover from assms(2) fs have "\<forall>x \<in> set gs. fst x = ReadFails" by simp
  ultimately have "plc2_loop (gs @ (x # rs)) c s = plc2_loop (x # rs) (c + int (length gs)) s"
    by (rule plc2_loop_fails)
  then show ?thesis by (simp add: fs x rd l)
qed

text \<open>
  C5. \<open>fs\<close> and \<open>gs\<close> are runs of reads that all fail. Fewer than 100 failures in a row
  only count up. A successful read after fewer than 100 failures (after one, after 99)
  leaves the counter at 0 and the process running, with the level stored and its row
  added; failures that follow start counting from 0 again. The 100th failure in a row
  prints the message and ends the process with status 0 at once: no later read is made,
  and no file is written.
\<close>

theorem plc2_main_loop_retry:
  assumes "\<forall>x \<in> set fs. fst x = ReadFails" and "\<forall>x \<in> set gs. fst x = ReadFails"
  shows "(length fs < 100 \<longrightarrow> plc2_main_loop fs s = (int (length fs), s))
     \<and> (length fs < 100 \<longrightarrow>
          plc2_main_loop (fs @ [(ReadOk v, now)]) s =
            (0, s\<lparr>t1 := v, local_time := local_time s + 1,
                  saved_tank_levels := saved_tank_levels s @ [[CInt (local_time s + 1), CTime now, CDec v]]\<rparr>))
     \<and> (length fs < 100 \<and> length gs < 100 \<longrightarrow>
          plc2_main_loop (fs @ [(ReadOk v, now)] @ gs) s =
            (int (length gs),
             s\<lparr>t1 := v, local_time := local_time s + 1,
               saved_tank_levels := saved_tank_levels s @ [[CInt (local_time s + 1), CTime now, CDec v]]\<rparr>))
     \<and> (length fs = 100 \<longrightarrow>
          plc2_main_loop (fs @ rest) s =
            (100, s\<lparr>stdout := stdout s @ [''PLC process encountered errors, aborting process''],
                    status := Exited 0\<rparr>)
        \<and> files (snd (plc2_main_loop (fs @ rest) s)) = files s
        \<and> status (snd (plc2_main_loop (fs @ rest) s)) = Exited 0)"
proof -
  have a: "plc2_loop (fs @ rs) 0 s = plc2_loop rs (int (length fs)) s" if "length fs < 100" for rs s
    using plc2_loop_fails [of 0 fs rs s] that assms(1) by simp
  have b: "plc2_loop (gs @ rs) 0 s = plc2_loop rs (int (length gs)) s" if "length gs < 100" for rs s
    using plc2_loop_fails [of 0 gs rs s] that assms(2) by simp
  have c: "plc2_loop (fs @ rest) 0 s =
      (100, s\<lparr>stdout := stdout s @ [''PLC process encountered errors, aborting process''],
              status := Exited 0\<rparr>)" if "length fs = 100"
    using plc2_loop_abort [of 0 fs rest s] that assms(1) by simp
  have 1: "plc2_main_loop fs s = (int (length fs), s)" if "length fs < 100"
    using a [OF that, of "[]" s] by (simp add: plc2_main_loop_def)
  have 2: "plc2_main_loop (fs @ [(ReadOk v, now)]) s =
            (0, s\<lparr>t1 := v, local_time := local_time s + 1,
                  saved_tank_levels := saved_tank_levels s @ [[CInt (local_time s + 1), CTime now, CDec v]]\<rparr>)"
    if "length fs < 100"
    using a [OF that, of "[(ReadOk v, now)]" s] by (simp add: plc2_main_loop_def)
  have 3: "plc2_main_loop (fs @ [(ReadOk v, now)] @ gs) s =
            (int (length gs),
             s\<lparr>t1 := v, local_time := local_time s + 1,
               saved_tank_levels := saved_tank_levels s @ [[CInt (local_time s + 1), CTime now, CDec v]]\<rparr>)"
    if "length fs < 100" "length gs < 100"
    using a [OF that(1), of "(ReadOk v, now) # gs" s] b [OF that(2), of "[]"]
    by (simp add: plc2_main_loop_def)
  from 1 2 3 c show ?thesis by (simp add: plc2_main_loop_def)
qed

lemma ex_plc2_ready_eval:
  "status ex_plc2_ready = Alive" "local_time ex_plc2_ready = 0" "files ex_plc2_ready = Map.empty"
  "stdout ex_plc2_ready = [''DEBUG: plc2 enters pre_loop'']"
  "saved_tank_levels ex_plc2_ready = [[CStr ''iteration'', CStr ''timestamp'', CStr ''T1'']]"
  "t1 ex_plc2_ready = 5" "reader ex_plc2_ready" "sender_started ex_plc2_ready"
  "handlers ex_plc2_ready SIGINT = SigintHandler" "handlers ex_plc2_ready SIGTERM = SigintHandler"
  "handlers ex_plc2_ready SIGHUP = DefaultHandler"
  by (simp_all add: ex_plc2_ready_def plc2_pre_loop_def ex_plc2_def)

theorem plc2_main_loop_retry_witness:
  "fst (plc2_main_loop ([(ReadFails, 1)] @ [(ReadOk 4, 2)]) ex_plc2_ready) = 0
   \<and> status (snd (plc2_main_loop ([(ReadFails, 1)] @ [(ReadOk 4, 2)]) ex_plc2_ready)) = Alive
   \<and> fst (plc2_main_loop (replicate 99 (ReadFails, 1)) ex_plc2_ready) = 99
   \<and> fst (plc2_main_loop (replicate 99 (ReadFails, 1) @ [(ReadOk 4, 2)]) ex_plc2_ready) = 0
   \<and> status (snd (plc2_main_loop (replicate 99 (ReadFails, 1) @ [(ReadOk 4, 2)]) ex_plc2_ready)) = Alive
   \<and> local_time (snd (plc2_main_loop (replicate 99 (ReadFails, 1) @ [(ReadOk 4, 2)]) ex_plc2_ready)) = 1
   \<and> fst (plc2_main_loop (replicate 99 (ReadFails, 1) @ [(ReadOk 4, 2)] @ replicate 99 (ReadFails, 3))
             ex_plc2_ready) = 99
   \<and> status (snd (plc2_main_loop (replicate 99 (ReadFails, 1) @ [(ReadOk 4, 2)] @ replicate 99 (ReadFails, 3))
                    ex_plc2_ready)) = Alive
   \<and> fst (plc2_main_loop (replicate 100 (ReadFails, 1) @ [(ReadOk 4, 2)]) ex_plc2_ready) = 100
   \<and> status (snd (plc2_main_loop (replicate 100 (ReadFails, 1) @ [(ReadOk 4, 2)]) ex_plc2_ready)) = Exited 0
   \<and> stdout (snd (plc2_main_loop (replicate 100 (ReadFails, 1) @ [(ReadOk 4, 2)]) ex_plc2_ready)) =
       [''DEBUG: plc2 enters pre_loop'', ''PLC process encountered errors, aborting process'']
   \<and> files (snd (plc2_main_loop (replicate 100 (ReadFails, 1) @ [(ReadOk 4, 2)]) ex_plc2_ready)) = Map.empty
   \<and> local_time (snd (plc2_main_loop (replicate 100 (ReadFails, 1) @ [(ReadOk 4, 2)]) ex_plc2_ready)) = 0"
  using
    plc2_main_loop_retry [of "[(ReadFails, 1)]" "[]" ex_plc2_ready 4 2 "[]"]
    plc2_main_loop_retry [of "replicate 99 (ReadFails, 1)" "replicate 99 (ReadFails, 3)" ex_plc2_ready 4 2 "[]"]
    plc2_main_loop_retry [of "replicate 100 (ReadFails, 1)" "[]" ex_plc2_ready 4 2 "[(ReadOk 4, 2)]"]
  by (simp add: ex_plc2_ready_eval)

subsection \<open>PLC2: the table and the signals\<close>

lemma level_rows_enumerate:
  "level_rows k xs =
     map (\<lambda>(i, (v, now)). [CInt (k + int i), CTime now, CDec v]) (enumerate 1 xs)"
proof (induction xs arbitrary: k)
  case Nil
  then show ?case by simp
next
  case (Cons x xs)
  obtain v now where x: "x = (v, now)" by (cases x)
  have "map (\<lambda>(i, (v, now)). [CInt (k + int i), CTime now, CDec v]) (enumerate (Suc 1) xs) =
        map (\<lambda>(i, (v, now)). [CInt (k + 1 + int i), CTime now, CDec v]) (enumerate 1 xs)"
    by (simp add: enumerate_Suc_eq map_prod_def case_prod_unfold o_def add.assoc)
  with Cons.IH [of "k + 1"] show ?case by (simp add: x)
qed

lemma plc2_loop_table:
  "plc2_loop rs c s = (c', s') \<Longrightarrow> status s = Alive \<Longrightarrow> status s' = Alive \<Longrightarrow>
     saved_tank_levels s' = saved_tank_levels s @ level_rows (local_time s) (levels_read rs)
   \<and> local_time s' = local_time s + int (length (levels_read rs))
   \<and> handlers s' = handlers s \<and> files s' = files s \<and> stdout s' = stdout s"
proof (induction rs arbitrary: c s)
  case Nil
  then show ?case by simp
next
  case (Cons x rs)
  obtain rd now where x: "x = (rd, now)" by (cases x)
  show ?case
  proof (cases rd)
    case ReadFails
    with Cons.prems x have lt: "c + 1 < 100"
      by (auto split: if_splits)
    with Cons.prems x ReadFails have "plc2_loop rs (c + 1) s = (c', s')" by simp
    from Cons.IH [OF this Cons.prems(2,3)] show ?thesis by (simp add: x ReadFails)
  next
    case (ReadOk v)
    let ?s = "s\<lparr>t1 := v, local_time := local_time s + 1,
                  saved_tank_levels := saved_tank_levels s @ [[CInt (local_time s + 1), CTime now, CDec v]]\<rparr>"
    from Cons.prems x ReadOk have "plc2_loop rs 0 ?s = (c', s')" by simp
    moreover from Cons.prems(2) have "status ?s = Alive" by simp
    ultimately have "saved_tank_levels s' = saved_tank_levels ?s @ level_rows (local_time ?s) (levels_read rs)
       \<and> local_time s' = local_time ?s + int (length (levels_read rs))
       \<and> handlers s' = handlers ?s \<and> files s' = files ?s \<and> stdout s' = stdout ?s"
      using Cons.prems(3) by (rule Cons.IH)
    then show ?thesis by (simp add: x ReadOk)
  qed
qed

text \<open>
  C8. A process that has run \<open>pre_loop\<close> and then its main loop over any reads, and is still
  alive, holds a table made of the header row and one row for each level it has read, in
  order: the number of the iteration counted from 1, the time and the level. When SIGINT or
  SIGTERM reaches it, it prints the shutdown line, writes the table as CSV text (one line
  per row, the header first) to \<open>output/plc2_saved_tank_levels_received.csv\<close>, and exits with
  status 0.
\<close>

theorem sigint_handler_persists:
  assumes "status s = Alive"
      and "plc2_main_loop rs (plc2_pre_loop (ReadOk v0) s) = (c, s')"
      and "status s' = Alive"
      and "sig = SIGINT \<or> sig = SIGTERM"
  shows "saved_tank_levels s' =
           [CStr ''iteration'', CStr ''timestamp'', CStr ''T1'']
           # map (\<lambda>(i, (v, now)). [CInt (int i), CTime now, CDec v]) (enumerate 1 (levels_read rs))
       \<and> deliver rn sig s' =
           s'\<lparr>stdout := stdout s' @ [''DEBUG plc2 shutdown''],
              files := (files s')(''output/plc2_saved_tank_levels_received.csv'' \<mapsto>
                                   writerows rn (saved_tank_levels s')),
              status := Exited 0\<rparr>
       \<and> files (deliver rn sig s') ''output/plc2_saved_tank_levels_received.csv'' =
           Some (csv_row rn [CStr ''iteration'', CStr ''timestamp'', CStr ''T1'']
                 @ concat (map (\<lambda>(i, (v, now)). csv_row rn [CInt (int i), CTime now, CDec v])
                             (enumerate 1 (levels_read rs))))
       \<and> status (deliver rn sig s') = Exited 0"
proof -
  let ?p = "plc2_pre_loop (ReadOk v0) s"
  have p: "status ?p = Alive" "local_time ?p = 0"
    "saved_tank_levels ?p = [[CStr ''iteration'', CStr ''timestamp'', CStr ''T1'']]"
    "handlers ?p SIGINT = SigintHandler" "handlers ?p SIGTERM = SigintHandler"
    using assms(1) by (simp_all add: plc2_pre_loop_def)
  from assms(2) have "plc2_loop rs 0 ?p = (c, s')" by (simp add: plc2_main_loop_def)
  from plc2_loop_table [OF this p(1) assms(3)]
  have t: "saved_tank_levels s' =
      [CStr ''iteration'', CStr ''timestamp'', CStr ''T1''] # level_rows 0 (levels_read rs)"
    and h: "handlers s' = handlers ?p"
    by (simp_all add: p)
  have rows: "saved_tank_levels s' =
           [CStr ''iteration'', CStr ''timestamp'', CStr ''T1'']
           # map (\<lambda>(i, (v, now)). [CInt (int i), CTime now, CDec v]) (enumerate 1 (levels_read rs))"
    unfolding t by (simp add: level_rows_enumerate)
  from assms(4) h p have hs: "handlers s' sig = SigintHandler" by auto
  have d: "deliver rn sig s' =
           s'\<lparr>stdout := stdout s' @ [''DEBUG plc2 shutdown''],
              files := (files s')(''output/plc2_saved_tank_levels_received.csv'' \<mapsto>
                                   writerows rn (saved_tank_levels s')),
              status := Exited 0\<rparr>"
    using assms(3) hs by (simp add: deliver_def sigint_handler_def write_output_def)
  have w: "writerows rn (saved_tank_levels s') =
      csv_row rn [CStr ''iteration'', CStr ''timestamp'', CStr ''T1'']
      @ concat (map (\<lambda>(i, (v, now)). csv_row rn [CInt (int i), CTime now, CDec v])
                  (enumerate 1 (levels_read rs)))"
    unfolding rows by (simp add: writerows_def o_def case_prod_unfold)
  from rows d w show ?thesis by simp
qed

lemma str_nat_digit: "n < 10 \<Longrightarrow> str_nat n = [''0123456789'' ! n]"
  by (simp add: str_nat.simps)

lemma ex_plc2_run_eval:
  "plc2_main_loop ex_reads (plc2_pre_loop (ReadOk 5) ex_plc2) = (0, ex_plc2_run)"
  "status ex_plc2_run = Alive"
  "files ex_plc2_run = Map.empty"
  "stdout ex_plc2_run = [''DEBUG: plc2 enters pre_loop'']"
  "handlers ex_plc2_run SIGHUP = DefaultHandler"
  by (simp_all add: ex_plc2_run_def ex_plc2_ready_def ex_reads_def plc2_main_loop_def
      plc2_pre_loop_def ex_plc2_def)

lemma ex_csv_rows:
  "csv_row ex_renderers [CStr ''iteration'', CStr ''timestamp'', CStr ''T1''] =
     ''iteration,timestamp,T1'' @ [CHR 0x0D, CHR 0x0A]"
  "csv_row ex_renderers [CInt 1, CTime 1, CDec 3] = ''1,12:00:01,3.0'' @ [CHR 0x0D, CHR 0x0A]"
  "csv_row ex_renderers [CInt 2, CTime 3, CDec 4] = ''2,12:00:03,4.0'' @ [CHR 0x0D, CHR 0x0A]"
  by (simp_all add: csv_row_def csv_field_def csv_special_def str_cell_def ex_renderers_def
      str_int_def str_nat_digit)

theorem sigint_handler_persists_witness:
  "status ex_plc2 = Alive
   \<and> plc2_main_loop ex_reads (plc2_pre_loop (ReadOk 5) ex_plc2) = (0, ex_plc2_run)
   \<and> status ex_plc2_run = Alive
   \<and> saved_tank_levels ex_plc2_run =
       [[CStr ''iteration'', CStr ''timestamp'', CStr ''T1''],
        [CInt 1, CTime 1, CDec 3],
        [CInt 2, CTime 3, CDec 4]]
   \<and> files ex_plc2_run ''output/plc2_saved_tank_levels_received.csv'' = None
   \<and> files (deliver ex_renderers SIGINT ex_plc2_run) ''output/plc2_saved_tank_levels_received.csv'' =
       Some (''iteration,timestamp,T1'' @ [CHR 0x0D, CHR 0x0A]
             @ ''1,12:00:01,3.0'' @ [CHR 0x0D, CHR 0x0A]
             @ ''2,12:00:03,4.0'' @ [CHR 0x0D, CHR 0x0A])
   \<and> status (deliver ex_renderers SIGINT ex_plc2_run) = Exited 0
   \<and> stdout (deliver ex_renderers SIGINT ex_plc2_run) =
       [''DEBUG: plc2 enters pre_loop'', ''DEBUG plc2 shutdown'']
   \<and> files (deliver ex_renderers SIGTERM ex_plc2_run) ''output/plc2_saved_tank_levels_received.csv'' =
       Some (''iteration,timestamp,T1'' @ [CHR 0x0D, CHR 0x0A]
             @ ''1,12:00:01,3.0'' @ [CHR 0x0D, CHR 0x0A]
             @ ''2,12:00:03,4.0'' @ [CHR 0x0D, CHR 0x0A])
   \<and> status (deliver ex_renderers SIGTERM ex_plc2_run) = Exited 0"
proof -
  have a: "status ex_plc2 = Alive" by (simp add: ex_plc2_def)
  have l: "enumerate 1 (levels_read ex_reads) = [(1, (3, 1)), (2, (4, 3))]"
    by (simp add: ex_reads_def)
  show ?thesis
    using sigint_handler_persists [OF a ex_plc2_run_eval(1,2), of SIGINT ex_renderers]
      sigint_handler_persists [OF a ex_plc2_run_eval(1,2), of SIGTERM ex_renderers] l ex_csv_rows
    by (simp add: a ex_plc2_run_eval writerows_def)
qed

subsection \<open>PLC2: the lock\<close>

text \<open>Only the main thread ever takes the lock.\<close>

lemma thread_step_holder:
  "holder \<sigma> \<noteq> Some SenderThread \<Longrightarrow> holder (thread_step x \<sigma>) \<noteq> Some SenderThread"
  by (auto simp: thread_step_def main_step_def send_system_state_step_def
      split: thread.splits main_pc.splits sender_pc.splits reading.splits)

lemma run_threads_holder:
  "holder \<sigma> \<noteq> Some SenderThread \<Longrightarrow> holder (run_threads sched \<sigma>) \<noteq> Some SenderThread"
  unfolding run_threads_def
  by (induction sched arbitrary: \<sigma>) (simp_all add: thread_step_holder)

text \<open>The sender's steps do not look at the lock: they are the same whoever holds it.\<close>

lemma send_system_state_step_holder:
  "send_system_state_step (\<sigma>\<lparr>holder := h\<rparr>) = (send_system_state_step \<sigma>)\<lparr>holder := h\<rparr>"
  by (simp add: send_system_state_step_def split: sender_pc.splits)

lemmas ex_threads_eval =
  run_threads_def thread_step_def main_step_def send_system_state_step_def start_threads_def
  ex_plc2_ready_def plc2_pre_loop_def ex_plc2_def

text \<open>
  C9. The claim fails for the sender. \<open>pre_loop\<close> creates \<open>self.lock\<close> and the main loop takes
  it around its assignment to \<open>self.t1\<close>, but \<open>send_system_state\<close> reads \<open>self.t1\<close> without
  taking it. In the schedule below the main thread enters \<open>with self.lock\<close> and holds the
  lock from then on; the sender tests \<open>self.reader\<close> and sends the level 5 of \<open>pre_loop\<close>; the
  main thread assigns the level 7; the sender tests again and sends 7, before the main
  thread has left the \<open>with\<close> block. Both sends happen while the main thread holds the lock.
\<close>

theorem send_system_state_without_lock:
  "holder (run_threads [(MainThread, ReadOk 7, 1)] (start_threads ex_plc2_ready)) = Some MainThread
   \<and> sent (run_threads [(MainThread, ReadOk 7, 1)] (start_threads ex_plc2_ready)) = []
   \<and> holder (run_threads [(MainThread, ReadOk 7, 1), (SenderThread, ReadOk 7, 1),
                           (SenderThread, ReadOk 7, 1)] (start_threads ex_plc2_ready)) = Some MainThread
   \<and> sent (run_threads [(MainThread, ReadOk 7, 1), (SenderThread, ReadOk 7, 1),
                         (SenderThread, ReadOk 7, 1)] (start_threads ex_plc2_ready)) = [5]
   \<and> main_at (run_threads [(MainThread, ReadOk 7, 1), (SenderThread, ReadOk 7, 1),
                            (SenderThread, ReadOk 7, 1), (MainThread, ReadOk 7, 1),
                            (SenderThread, ReadOk 7, 1), (SenderThread, ReadOk 7, 1)]
                (start_threads ex_plc2_ready)) = AtRelease
   \<and> holder (run_threads [(MainThread, ReadOk 7, 1), (SenderThread, ReadOk 7, 1),
                           (SenderThread, ReadOk 7, 1), (MainThread, ReadOk 7, 1),
                           (SenderThread, ReadOk 7, 1), (SenderThread, ReadOk 7, 1)]
               (start_threads ex_plc2_ready)) = Some MainThread
   \<and> sent (run_threads [(MainThread, ReadOk 7, 1), (SenderThread, ReadOk 7, 1),
                         (SenderThread, ReadOk 7, 1), (MainThread, ReadOk 7, 1),
                         (SenderThread, ReadOk 7, 1), (SenderThread, ReadOk 7, 1)]
             (start_threads ex_plc2_ready)) = [5, 7]"
  by (simp add: ex_threads_eval)

end
